theory Spec2Isabelle
  imports Complex_Main "HOL-Library.While_Combinator"
begin

section \<open>Arrays\<close>

text \<open>
  A JAX array is modelled the way it lies in memory: a shape and the elements in
  row-major order.  A 2D slice of shape \<open>(H, W)\<close> is therefore a flat list of length
  \<open>H * W\<close>, pixel \<open>(i, j)\<close> at index \<open>i * W + j\<close>; \<open>flatten\<close> and \<open>reshape\<close> are the
  identity on the elements.  The solver only negates and compares the values of its slice,
  which floating point does without rounding, so the slice is a list of reals (finite
  values); the value \<open>-inf\<close> that the solver writes with \<open>jnp.where\<close> is \<open>None\<close>.  Where the
  code computes with the values (the distances of \<open>ClosestIndex\<close>, the product \<open>* 0\<close> of the
  array container) they are of the type \<open>float\<close> below, with rounding, infinities and NaN.
\<close>

record 'a ndarray =
  shape :: "nat list"
  elems :: "'a list"

type_synonym mask = "bool list"

definition mask_not :: "mask \<Rightarrow> mask" where
  "mask_not a = map Not a"

definition mask_and :: "mask \<Rightarrow> mask \<Rightarrow> mask" where
  "mask_and a b = map2 (\<and>) a b"

definition mask_or :: "mask \<Rightarrow> mask \<Rightarrow> mask" where
  "mask_or a b = map2 (\<or>) a b"

definition jnp_any :: "mask \<Rightarrow> bool" where
  "jnp_any a = list_ex (\<lambda>b. b) a"

definition jnp_all :: "mask \<Rightarrow> bool" where
  "jnp_all a = list_all (\<lambda>b. b) a"

definition zeros_like :: "'a list \<Rightarrow> mask" where
  "zeros_like a = replicate (length a) False"

text \<open>\<open>jnp.where(m, a, -jnp.inf)\<close> and \<open>jnp.where(m, -a, -jnp.inf)\<close>.\<close>

definition where_or_neg_inf :: "mask \<Rightarrow> real list \<Rightarrow> real option list" where
  "where_or_neg_inf m a = map2 (\<lambda>b x. if b then Some x else None) m a"

definition negate :: "real list \<Rightarrow> real list" where
  "negate a = map uminus a"

text \<open>The comparison \<open>>\<close> on values that may be \<open>-inf\<close>.\<close>

fun gt_ext :: "real option \<Rightarrow> real option \<Rightarrow> bool" where
  "gt_ext None _ = False"
| "gt_ext (Some a) None = True"
| "gt_ext (Some a) (Some b) = (b < a)"

text \<open>\<open>jnp.max\<close> over all elements, and \<open>jnp.argmax\<close>, which returns the first index of
  the maximum of the flattened array.  Both raise \<open>ValueError\<close> on an array without
  elements.  That error surfaces when the loop body is traced, before the first iteration
  (\<open>trace_body_fn\<close> below), so \<open>__call__\<close> never evaluates the two functions on \<open>[]\<close>.\<close>

fun jnp_max :: "real option list \<Rightarrow> real option" where
  "jnp_max [] = None"
| "jnp_max (x # xs) = (if gt_ext (jnp_max xs) x then jnp_max xs else x)"

fun jnp_argmax :: "real option list \<Rightarrow> nat" where
  "jnp_argmax [] = 0"
| "jnp_argmax (x # xs) = (if gt_ext (jnp_max xs) x then Suc (jnp_argmax xs) else 0)"

section \<open>The brush-constraint solver\<close>

text \<open>
  \<open>BrushConstraint2D._generator\<close>.  The binary dilation \<open>dilate_jax(\<cdot>, self.brush)\<close> is
  imported from a module outside this excerpt; the loop body takes it as the parameter
  \<open>dil\<close>, so that what is proved of the body holds for every dilation.
\<close>

record touches =
  pixel_existing_solid :: mask
  pixel_existing_void :: mask
  touch_impossible_solid :: mask
  touch_impossible_void :: mask
  touch_valid_solid :: mask
  touch_valid_void :: mask
  pixel_possible_solid :: mask
  pixel_possible_void :: mask
  pixel_required_solid :: mask
  pixel_required_void :: mask
  touch_resolving_solid :: mask
  touch_resolving_void :: mask
  touch_free_solid :: mask
  touch_free_void :: mask

definition compute_touches :: "(mask \<Rightarrow> mask) \<Rightarrow> mask \<times> mask \<Rightarrow> touches" where
  "compute_touches dil sv_arrs =
    (let touch_v = fst sv_arrs; touch_s = snd sv_arrs;
         pes = dil touch_s;
         pev = dil touch_v;
         tis = dil pev;
         tiv = dil pes;
         tvs = mask_and (mask_not tis) (mask_not touch_s);
         tvv = mask_and (mask_not tiv) (mask_not touch_v);
         pps = dil (mask_or touch_s tvs);
         ppv = dil (mask_or touch_v tvv);
         prs = mask_and (mask_not pes) (mask_not ppv);
         prv = mask_and (mask_not pev) (mask_not pps);
         trs = mask_and (dil prs) tvs;
         trv = mask_and (dil prv) tvv;
         tfs = mask_and (mask_not (dil (mask_or ppv pev))) tvs;
         tfv = mask_and (mask_not (dil (mask_or pps pes))) tvv
     in \<lparr> pixel_existing_solid = pes, pixel_existing_void = pev,
          touch_impossible_solid = tis, touch_impossible_void = tiv,
          touch_valid_solid = tvs, touch_valid_void = tvv,
          pixel_possible_solid = pps, pixel_possible_void = ppv,
          pixel_required_solid = prs, pixel_required_void = prv,
          touch_resolving_solid = trs, touch_resolving_void = trv,
          touch_free_solid = tfs, touch_free_void = tfv \<rparr>)"

text \<open>Case 1.  The closures of the source are functions of the variables they capture.\<close>

definition select_all_free_touches :: "mask \<Rightarrow> mask \<Rightarrow> mask \<times> mask \<Rightarrow> mask \<times> mask" where
  "select_all_free_touches tfs tfv sv_arrs =
    (let touch_v = fst sv_arrs; touch_s = snd sv_arrs;
         new_v = mask_or touch_v tfv;
         new_s = mask_or touch_s tfs
     in (new_v, new_s))"

text \<open>The inner \<open>select_void\<close> and \<open>select_solid\<close> of cases 2 and 3, and the \<open>jax.lax.cond\<close>
  on \<open>jnp.max(values_solid) > jnp.max(values_void)\<close> that chooses between them.  The source
  writes this block twice, once per case, with the same text.\<close>

definition select_void :: "real option list \<Rightarrow> mask \<times> mask \<Rightarrow> mask \<times> mask" where
  "select_void values_void sv_arrs =
    (let touch_v = fst sv_arrs; touch_s = snd sv_arrs;
         max_idx = jnp_argmax values_void;
         new_v = touch_v[max_idx := True]
     in (new_v, touch_s))"

definition select_solid :: "real option list \<Rightarrow> mask \<times> mask \<Rightarrow> mask \<times> mask" where
  "select_solid values_solid sv_arrs =
    (let touch_v = fst sv_arrs; touch_s = snd sv_arrs;
         max_idx = jnp_argmax values_solid;
         new_s = touch_s[max_idx := True]
     in (touch_v, new_s))"

definition select_best :: "real option list \<Rightarrow> real option list \<Rightarrow> mask \<times> mask \<Rightarrow> mask \<times> mask" where
  "select_best values_solid values_void sv_arrs =
    (if gt_ext (jnp_max values_solid) (jnp_max values_void)
     then select_solid values_solid sv_arrs
     else select_void values_void sv_arrs)"

text \<open>Case 2.\<close>

definition select_best_resolving_touch :: "real list \<Rightarrow> mask \<Rightarrow> mask \<Rightarrow> mask \<times> mask \<Rightarrow> mask \<times> mask" where
  "select_best_resolving_touch arr trs trv sv_arrs =
    (let values_solid = where_or_neg_inf trs arr;
         values_void = where_or_neg_inf trv (negate arr)
     in select_best values_solid values_void sv_arrs)"

text \<open>Case 3.\<close>

definition select_best_valid_touch :: "real list \<Rightarrow> mask \<Rightarrow> mask \<Rightarrow> mask \<times> mask \<Rightarrow> mask \<times> mask" where
  "select_best_valid_touch arr tvs tvv sv_arrs =
    (let values_solid = where_or_neg_inf tvs arr;
         values_void = where_or_neg_inf tvv (negate arr)
     in select_best values_solid values_void sv_arrs)"

definition case_2_and_3_function :: "real list \<Rightarrow> touches \<Rightarrow> mask \<times> mask \<Rightarrow> mask \<times> mask" where
  "case_2_and_3_function arr t sv_arrs =
    (let resolving_exists = jnp_any (mask_or (touch_resolving_solid t) (touch_resolving_void t))
     in if resolving_exists
        then select_best_resolving_touch arr (touch_resolving_solid t) (touch_resolving_void t) sv_arrs
        else select_best_valid_touch arr (touch_valid_solid t) (touch_valid_void t) sv_arrs)"

definition body_fn :: "(mask \<Rightarrow> mask) \<Rightarrow> real list \<Rightarrow> mask \<times> mask \<Rightarrow> mask \<times> mask" where
  "body_fn dil arr sv_arrs =
    (let t = compute_touches dil sv_arrs;
         free_touches_exist = jnp_any (mask_or (touch_free_solid t) (touch_free_void t))
     in if free_touches_exist
        then select_all_free_touches (touch_free_solid t) (touch_free_void t) sv_arrs
        else case_2_and_3_function arr t sv_arrs)"

definition cond_fn :: "(mask \<Rightarrow> mask) \<Rightarrow> mask \<times> mask \<Rightarrow> bool" where
  "cond_fn dil arrs =
    (let touch_v = fst arrs; touch_s = snd arrs;
         pes = dil touch_s;
         pev = dil touch_v
     in \<not> jnp_all (mask_or pes pev))"

text \<open>The \<open>while_loop\<close>: \<open>None\<close> when it never leaves the loop.\<close>

definition generator_loop :: "(mask \<Rightarrow> mask) \<Rightarrow> real list \<Rightarrow> (mask \<times> mask) option" where
  "generator_loop dil arr =
    (let touches_void = zeros_like arr;
         touches_solid = zeros_like touches_void
     in while_option (cond_fn dil) (body_fn dil arr) (touches_void, touches_solid))"

definition generator :: "(mask \<Rightarrow> mask) \<Rightarrow> real list \<Rightarrow> mask option" where
  "generator dil arr = map_option (\<lambda>res_arrs. dil (snd res_arrs)) (generator_loop dil arr)"

subsection \<open>Predicates used in the statements\<close>

text \<open>\<open>first_best m a i\<close>: \<open>i\<close> is the first index at which \<open>a\<close> is maximal among the
  candidates of the mask \<open>m\<close>.  \<open>commits_single_best\<close>: the step from \<open>sv\<close> to \<open>r\<close> sets
  exactly that position, on the solid side or on the void side, and nothing else.\<close>

definition first_best :: "mask \<Rightarrow> real list \<Rightarrow> nat \<Rightarrow> bool" where
  "first_best m a i \<longleftrightarrow>
     i < length a \<and> m ! i \<and> (\<forall>j<length a. m ! j \<longrightarrow> a ! j \<le> a ! i) \<and> (\<forall>j<i. m ! j \<longrightarrow> a ! j < a ! i)"


subsection \<open>Binary dilation\<close>

text \<open>
  Modelled from the spec: \<open>dilate_jax\<close> (module \<open>binary_transform\<close>) is not part of this
  excerpt.  The specification describes it as \<open>dilate(field, brush)\<close>: for each position,
  true iff some True value of the field lies within the brush's offset footprint centred at
  that position, with zero padding (positions outside the bounds count as False).  The
  brush is a 2D boolean array, given here by its rows; its centre is the entry at row
  \<open>k div 2\<close>, column \<open>k div 2\<close>, which is the middle entry of every odd-sized brush.  The
  field is the flat row-major list of a slice of shape \<open>(H, W)\<close>.
\<close>

definition brush_offsets :: "bool list list \<Rightarrow> (int \<times> int) list" where
  "brush_offsets brush =
     concat (map (\<lambda>r. map (\<lambda>c. (int r - int (length brush div 2), int c - int (length (brush ! r) div 2)))
                          (filter (\<lambda>c. brush ! r ! c) [0..<length (brush ! r)]))
                 [0..<length brush])"

definition in_bounds :: "nat \<times> nat \<Rightarrow> int \<times> int \<Rightarrow> bool" where
  "in_bounds shp q \<longleftrightarrow> 0 \<le> fst q \<and> fst q < int (fst shp) \<and> 0 \<le> snd q \<and> snd q < int (snd shp)"

definition dilate_jax :: "nat \<times> nat \<Rightarrow> mask \<Rightarrow> bool list list \<Rightarrow> mask" where
  "dilate_jax shp field brush =
     map (\<lambda>p. list_ex (\<lambda>d. let q = (int (p div snd shp) + fst d, int (p mod snd shp) + snd d)
                             in in_bounds shp q \<and> field ! (nat (fst q) * snd shp + nat (snd q)))
                       (brush_offsets brush))
         [0..<fst shp * snd shp]"

text \<open>\<open>BrushConstraint2D._generator\<close> on a slice of shape \<open>shp\<close> with the brush \<open>brush\<close>.\<close>

definition brush_generator :: "bool list list \<Rightarrow> nat \<times> nat \<Rightarrow> real list \<Rightarrow> mask option" where
  "brush_generator brush shp arr = generator (\<lambda>m. dilate_jax shp m brush) arr"

subsection \<open>Predicates on the solver state\<close>



definition valid_exists :: "(mask \<Rightarrow> mask) \<Rightarrow> mask \<times> mask \<Rightarrow> bool" where
  "valid_exists dil sv =
     (let t = compute_touches dil sv
      in jnp_any (mask_or (touch_valid_solid t) (touch_valid_void t)))"

definition count_true :: "mask \<Rightarrow> nat" where
  "count_true m = length (filter (\<lambda>b. b) m)"


section \<open>Floating-point values\<close>

text \<open>
  A value of a floating-point array: a finite number, an infinity or NaN.  The two signed
  zeros are the one value \<open>Finite 0\<close>.  A binary format is given by the number of bits of its
  significand (the hidden bit included) and its largest exponent; \<open>float32\<close>, the default
  type of JAX arrays, has 24 bits and the largest exponent 127.
\<close>

datatype float = Finite real | PosInf | NegInf | NaN

record float_format =
  precision :: nat
  emax :: int

definition binary32 :: float_format where
  "binary32 = \<lparr>precision = 24, emax = 127\<rparr>"

definition pow2 :: "int \<Rightarrow> real" where
  "pow2 e = (if 0 \<le> e then 2 ^ nat e else 1 / 2 ^ nat (- e))"

text \<open>The exponent of the binade of \<open>x\<close>: the largest \<open>e\<close> between \<open>1 - emax\<close> and \<open>emax\<close> with
  \<open>2 ^ e \<le> |x|\<close>, and \<open>1 - emax\<close> for the subnormal range.\<close>

definition float_exponent :: "float_format \<Rightarrow> real \<Rightarrow> int" where
  "float_exponent fmt x =
     (let es = filter (\<lambda>e. pow2 e \<le> \<bar>x\<bar>) [1 - emax fmt..emax fmt]
      in if es = [] then 1 - emax fmt else Max (set es))"

definition round_half_even :: "real \<Rightarrow> int" where
  "round_half_even r =
     (let f = \<lfloor>r\<rfloor>; d = r - of_int f
      in if d < 1 / 2 then f else if 1 / 2 < d then f + 1 else if even f then f else f + 1)"

text \<open>Rounding of an exact result to the nearest value of the format, ties to the even
  significand, overflow to an infinity.  Every arithmetic operation returns the rounding of
  its exact result.\<close>

definition round_to_format :: "float_format \<Rightarrow> real \<Rightarrow> float" where
  "round_to_format fmt x =
     (let q = pow2 (float_exponent fmt x - int (precision fmt) + 1);
          y = of_int (round_half_even (x / q)) * q
      in if pow2 (emax fmt + 1) \<le> \<bar>y\<bar> then (if 0 < x then PosInf else NegInf) else Finite y)"

text \<open>\<open>a - b\<close>, \<open>jnp.abs\<close>, \<open>1 / a\<close> (a zero counts as \<open>+0.0\<close>), \<open>a * 0\<close> and the comparison
  \<open><\<close>, which is false whenever an operand is NaN.\<close>

fun float_sub :: "float_format \<Rightarrow> float \<Rightarrow> float \<Rightarrow> float" where
  "float_sub fmt (Finite x) (Finite y) = round_to_format fmt (x - y)"
| "float_sub fmt (Finite x) PosInf = NegInf"
| "float_sub fmt (Finite x) NegInf = PosInf"
| "float_sub fmt PosInf (Finite y) = PosInf"
| "float_sub fmt PosInf NegInf = PosInf"
| "float_sub fmt PosInf PosInf = NaN"
| "float_sub fmt NegInf (Finite y) = NegInf"
| "float_sub fmt NegInf PosInf = NegInf"
| "float_sub fmt NegInf NegInf = NaN"
| "float_sub fmt NaN b = NaN"
| "float_sub fmt a NaN = NaN"

fun float_abs :: "float \<Rightarrow> float" where
  "float_abs (Finite x) = Finite \<bar>x\<bar>"
| "float_abs PosInf = PosInf"
| "float_abs NegInf = PosInf"
| "float_abs NaN = NaN"

fun float_reciprocal :: "float_format \<Rightarrow> float \<Rightarrow> float" where
  "float_reciprocal fmt (Finite x) = (if x = 0 then PosInf else round_to_format fmt (1 / x))"
| "float_reciprocal fmt PosInf = Finite 0"
| "float_reciprocal fmt NegInf = Finite 0"
| "float_reciprocal fmt NaN = NaN"

fun float_times_zero :: "float \<Rightarrow> float" where
  "float_times_zero (Finite x) = Finite (x * 0)"
| "float_times_zero PosInf = NaN"
| "float_times_zero NegInf = NaN"
| "float_times_zero NaN = NaN"

fun float_less :: "float \<Rightarrow> float \<Rightarrow> bool" where
  "float_less (Finite x) (Finite y) = (x < y)"
| "float_less (Finite x) PosInf = True"
| "float_less NegInf (Finite y) = True"
| "float_less NegInf PosInf = True"
| "float_less a b = False"

definition is_nan :: "float \<Rightarrow> bool" where
  "is_nan v = (case v of NaN \<Rightarrow> True | _ \<Rightarrow> False)"

definition is_finite :: "float \<Rightarrow> bool" where
  "is_finite v = (case v of Finite x \<Rightarrow> True | _ \<Rightarrow> False)"

section \<open>The array container\<close>

text \<open>
  \<open>fdtd/container.py\<close>.  A simulation object is known to the container through its name
  and its class; \<open>isinstance\<close> tests read the class.  Dictionaries are maps.  The state of
  a boundary is an abstract value \<open>'bs\<close>; \<open>reset_state\<close> of the boundary classes is defined
  outside this excerpt and is the parameter \<open>reset_state\<close> below.
\<close>

datatype error =
    Exception string
  | KeyError string
  | IndexError
  | ValueError

datatype object_class =
    PerfectlyMatchedLayer | PeriodicBoundary | Source | Detector
  | DiscreteDevice | ContinuousDevice | StaticMaterialObject | OtherObject

record simulation_object =
  name :: string
  object_class :: object_class

record object_container =
  object_list :: "simulation_object list"
  volume_idx :: nat

definition objects :: "object_container \<Rightarrow> simulation_object list" where
  "objects c = object_list c"

definition boundary_objects :: "object_container \<Rightarrow> simulation_object list" where
  "boundary_objects c =
     filter (\<lambda>ob. object_class ob = PerfectlyMatchedLayer \<or> object_class ob = PeriodicBoundary) (objects c)"

record recording_state =
  rec_data :: "string \<rightharpoonup> float ndarray"
  rec_state :: "string \<rightharpoonup> float ndarray"

record 'bs array_container =
  E :: "float ndarray"
  H :: "float ndarray"
  inv_permittivities :: "float ndarray"
  inv_permeabilities :: "float ndarray + float"
  boundary_states :: "string \<rightharpoonup> 'bs"
  detector_states :: "string \<rightharpoonup> (string \<rightharpoonup> float ndarray)"
  recording_state :: "recording_state option"
  electric_conductivity :: "float ndarray option"
  magnetic_conductivity :: "float ndarray option"

text \<open>\<open>a * 0\<close> on an array: the elementwise floating-point product, which is NaN where the
  element is an infinity or NaN.\<close>

definition times_zero :: "float ndarray \<Rightarrow> float ndarray" where
  "times_zero a = a\<lparr>elems := map float_times_zero (elems a)\<rparr>"

text \<open>The loop over \<open>objects.boundary_objects\<close> that fills the fresh dictionary; reading
  \<open>arrays.boundary_states[boundary.name]\<close> raises \<open>KeyError\<close> when the name is absent.\<close>

fun reset_boundaries ::
  "(simulation_object \<Rightarrow> 'bs \<Rightarrow> 'bs) \<Rightarrow> (string \<rightharpoonup> 'bs) \<Rightarrow> simulation_object list \<Rightarrow>
     (string \<rightharpoonup> 'bs) \<Rightarrow> error + (string \<rightharpoonup> 'bs)" where
  "reset_boundaries reset_state old [] acc = Inr acc"
| "reset_boundaries reset_state old (boundary # rest) acc =
     (case old (name boundary) of
        None \<Rightarrow> Inl (KeyError (name boundary))
      | Some st \<Rightarrow> reset_boundaries reset_state old rest (acc(name boundary \<mapsto> reset_state boundary st)))"

definition reset_array_container ::
  "(simulation_object \<Rightarrow> 'bs \<Rightarrow> 'bs) \<Rightarrow> 'bs array_container \<Rightarrow> object_container \<Rightarrow> bool \<Rightarrow> bool \<Rightarrow>
     error + 'bs array_container" where
  "reset_array_container reset_state arrays0 objs reset_detector_states reset_recording_state =
    (let arrays1 = arrays0\<lparr>E := times_zero (E arrays0)\<rparr>;
         arrays2 = arrays1\<lparr>H := times_zero (H arrays1)\<rparr>
     in case reset_boundaries reset_state (boundary_states arrays2) (boundary_objects objs) Map.empty of
          Inl e \<Rightarrow> Inl e
        | Inr new_boundary_states \<Rightarrow>
           (let arrays3 = arrays2\<lparr>boundary_states := new_boundary_states\<rparr>;
                detector_states0 = detector_states arrays3;
                detector_states1 =
                  (if reset_detector_states
                   then (\<lambda>k. map_option (\<lambda>v. (\<lambda>k2. map_option times_zero (v k2))) (detector_states0 k))
                   else detector_states0);
                arrays4 = arrays3\<lparr>boundary_states := new_boundary_states\<rparr>;
                recording_state0 = recording_state arrays4;
                recording_state1 =
                  (case recording_state arrays4 of
                     Some rs \<Rightarrow>
                       if reset_recording_state
                       then Some \<lparr>rec_data = (\<lambda>k. map_option times_zero (rec_data rs k)),
                                  rec_state = (\<lambda>k. map_option times_zero (rec_state rs k))\<rparr>
                       else recording_state0
                   | None \<Rightarrow> recording_state0);
                arrays5 = arrays4\<lparr>recording_state := recording_state1\<rparr>
            in Inr arrays5))"

text \<open>\<open>all_zero\<close>: every element is zero.  \<open>all_finite\<close>: no element is an infinity or NaN.\<close>

definition all_zero :: "float ndarray \<Rightarrow> bool" where
  "all_zero a \<longleftrightarrow> list_all (\<lambda>v. v = Finite 0) (elems a)"

definition all_finite :: "float ndarray \<Rightarrow> bool" where
  "all_finite a \<longleftrightarrow> list_all is_finite (elems a)"

text \<open>A small container pair used to instantiate the statements.\<close>

definition example_arrays :: "unit array_container" where
  "example_arrays =
     \<lparr>E = \<lparr>shape = [2], elems = [Finite 3, Finite (- 4)]\<rparr>,
      H = \<lparr>shape = [2], elems = [Finite 5, Finite 6]\<rparr>,
      inv_permittivities = \<lparr>shape = [2], elems = [Finite 1, Finite 1]\<rparr>,
      inv_permeabilities = Inr (Finite 1),
      boundary_states = [''pml'' \<mapsto> ()],
      detector_states = [''det'' \<mapsto> [''energy'' \<mapsto> \<lparr>shape = [1], elems = [Finite 7]\<rparr>]],
      recording_state = None,
      electric_conductivity = None,
      magnetic_conductivity = None\<rparr>"

definition example_objects :: object_container where
  "example_objects =
     \<lparr>object_list = [\<lparr>name = ''volume'', object_class = OtherObject\<rparr>,
                     \<lparr>name = ''pml'', object_class = PerfectlyMatchedLayer\<rparr>],
      volume_idx = 0\<rparr>"

section \<open>The discretization variants\<close>

text \<open>
  \<open>discretization.py\<close>.  The material catalog \<open>self._material\<close> is a dictionary from names to
  materials.  The functions that read it (\<open>compute_allowed_permittivities\<close>,
  \<open>compute_ordered_names\<close>, \<open>get_air_name\<close>) are imported from modules outside this excerpt,
  so the catalog is given by its keys together with what these functions return on it; the
  air name is \<open>None\<close> when \<open>get_air_name\<close> raises.
\<close>

record material_catalog =
  material_keys :: "string list"
  allowed_permittivities :: "real list"
  ordered_names :: "string list"
  air_name :: "string option"

text \<open>\<open>input_params: dict[str, jax.Array] | jax.Array\<close>, over the type of the array elements.\<close>

datatype 'a input_params =
    ParamDict "(string \<times> 'a ndarray) list"
  | ParamArray "'a ndarray"

text \<open>
  Modelled from the spec: \<open>straight_through_estimator\<close> (module \<open>core.jax.ste\<close>) is not part
  of this excerpt.  The specification says of it: the forward pass returns the discrete
  result, and the reported local derivative with respect to the continuous input is the
  identity (the gradient of the output with respect to the input is defined as 1
  everywhere).  Its result is therefore modelled as the forward value together with the
  rule that maps an upstream gradient to the gradient reported for the continuous input.
\<close>

record 'a bridged =
  forward :: "'a ndarray"
  input_gradient :: "real list \<Rightarrow> real list"

definition straight_through_estimator :: "'b ndarray \<Rightarrow> 'a ndarray \<Rightarrow> 'a bridged" where
  "straight_through_estimator x y = \<lparr>forward = y, input_gradient = (\<lambda>upstream. upstream)\<rparr>"

subsection \<open>\<open>ClosestIndex\<close>\<close>

text \<open>\<open>jnp.argmin\<close> along the last axis returns the first index of the minimum, and the
  index of the first NaN when the axis holds one; it raises on an axis of size zero, which
  the caller below turns into \<open>ValueError\<close>.\<close>

fun jnp_argmin :: "float list \<Rightarrow> nat" where
  "jnp_argmin [] = 0"
| "jnp_argmin [x] = 0"
| "jnp_argmin (x # y # ys) =
     (let k = jnp_argmin (y # ys); m = (y # ys) ! k
      in if is_nan x then 0 else if is_nan m \<or> float_less m x then Suc k else 0)"

text \<open>
  \<open>ClosestIndex.__call__\<close>.  The arrays are of the floating-point format \<open>fmt\<close> (\<open>float32\<close>
  unless JAX runs in 64-bit mode): \<open>jnp.asarray\<close> rounds the permittivities of the catalog to
  the format, and the quotient \<open>1 / \<cdot>\<close> and the difference \<open>arr[..., None] - allowed_inv_perms\<close>
  are rounded results.
\<close>

definition ClosestIndex_call ::
  "float_format \<Rightarrow> material_catalog \<Rightarrow> float input_params \<Rightarrow> error + nat bridged" where
  "ClosestIndex_call fmt material input =
    (case input of
       ParamDict d \<Rightarrow>
         Inl (Exception ''Closest Index cannot be used with latent parameters that contain multiple entries'')
     | ParamArray arr \<Rightarrow>
        (let allowed_inv_perms =
               map (\<lambda>p. float_reciprocal fmt (round_to_format fmt p)) (allowed_permittivities material);
             dist = map (\<lambda>v. map (\<lambda>a. float_abs (float_sub fmt v a)) allowed_inv_perms) (elems arr)
         in if allowed_inv_perms = [] then Inl ValueError
            else (let discrete = \<lparr>shape = shape arr, elems = map jnp_argmin dist\<rparr>
                  in Inr (straight_through_estimator arr discrete))))"

text \<open>The array of allowed inverse permittivities that \<open>__call__\<close> computes, and the row of
  distances it computes for the input value \<open>v\<close>.\<close>

definition inverse_permittivities :: "float_format \<Rightarrow> material_catalog \<Rightarrow> float list" where
  "inverse_permittivities fmt material =
     map (\<lambda>p. float_reciprocal fmt (round_to_format fmt p)) (allowed_permittivities material)"

definition distances :: "float_format \<Rightarrow> material_catalog \<Rightarrow> float \<Rightarrow> float list" where
  "distances fmt material v = map (\<lambda>a. float_abs (float_sub fmt v a)) (inverse_permittivities fmt material)"

text \<open>\<open>lowest_minimal d k\<close>: no entry of \<open>d\<close> is less than the entry at \<open>k\<close>, and every entry
  at a lower index is greater.\<close>

definition lowest_minimal :: "float list \<Rightarrow> nat \<Rightarrow> bool" where
  "lowest_minimal d k \<longleftrightarrow>
     k < length d \<and> (\<forall>j<length d. \<not> float_less (d ! j) (d ! k)) \<and> (\<forall>j<k. float_less (d ! k) (d ! j))"

definition forward_result :: "error + 'a bridged \<Rightarrow> error + 'a ndarray" where
  "forward_result r = (case r of Inl e \<Rightarrow> Inl e | Inr v \<Rightarrow> Inr (forward v))"

subsection \<open>\<open>BrushConstraint2D\<close>\<close>

text \<open>Python indexing \<open>s[i]\<close> of a tuple with a possibly negative index; \<open>None\<close> is
  \<open>IndexError\<close>.  \<open>list.index\<close>; \<open>None\<close> is \<open>ValueError\<close>.\<close>

definition py_index :: "'a list \<Rightarrow> int \<Rightarrow> 'a option" where
  "py_index xs i =
     (if 0 \<le> i \<and> i < int (length xs) then Some (xs ! nat i)
      else if i < 0 \<and> - int (length xs) \<le> i then Some (xs ! nat (int (length xs) + i))
      else None)"

definition normalize_axis :: "nat \<Rightarrow> int \<Rightarrow> nat" where
  "normalize_axis rank i = nat (if i < 0 then int rank + i else i)"

fun list_index :: "'a list \<Rightarrow> 'a \<Rightarrow> nat option" where
  "list_index [] a = None"
| "list_index (x # xs) a = (if x = a then Some 0 else map_option Suc (list_index xs a))"

text \<open>\<open>jnp.take(x, 0, axis)\<close>: the elements whose index along \<open>axis\<close> is 0, with that axis
  removed from the shape.  \<open>jnp.expand_dims\<close> inserts an axis of size 1.\<close>

definition jnp_take0 :: "'a ndarray \<Rightarrow> nat \<Rightarrow> 'a ndarray" where
  "jnp_take0 x a =
     (let s = shape x; inner = prod_list (drop (Suc a) s); size_a = s ! a
      in \<lparr>shape = take a s @ drop (Suc a) s,
          elems = map (\<lambda>p. elems x ! p)
                    (filter (\<lambda>p. (p div inner) mod size_a = 0) [0..<length (elems x)])\<rparr>)"

definition expand_dims :: "'a ndarray \<Rightarrow> nat \<Rightarrow> 'a ndarray" where
  "expand_dims x a = \<lparr>shape = take a (shape x) @ [1] @ drop a (shape x), elems = elems x\<rparr>"

datatype 'a outcome = Raises error | Diverges | Returns 'a

record brush_constraint_2d =
  material :: material_catalog
  brush :: "bool list list"
  axis :: int

text \<open>\<open>1 - m\<close> on a boolean array and on an integer array.\<close>

definition one_minus_mask :: "mask \<Rightarrow> int list" where
  "one_minus_mask m = map (\<lambda>b. 1 - (if b then 1 else 0)) m"

definition one_minus :: "int list \<Rightarrow> int list" where
  "one_minus v = map (\<lambda>x. 1 - x) v"

text \<open>
  \<open>_generator\<close> hands \<open>cond_fn\<close> and \<open>body_fn\<close> to \<open>lax.while_loop\<close>, which traces both once on
  the shapes of the initial value before the loop runs, whatever the condition is.  The
  trace of \<open>body_fn\<close> goes through both branches of every \<open>jax.lax.cond\<close> and so reaches
  \<open>jnp.max(values_solid)\<close>, which raises \<open>ValueError\<close> on an array without elements.
\<close>

definition trace_body_fn :: "real list \<Rightarrow> error option" where
  "trace_body_fn arr = (if arr = [] then Some ValueError else None)"

definition BrushConstraint2D_call :: "brush_constraint_2d \<Rightarrow> real input_params \<Rightarrow> int bridged outcome" where
  "BrushConstraint2D_call self input =
    (case input of
       ParamDict d \<Rightarrow>
         Raises (Exception ''BrushConstraint2D cannot be used with latent parameters that contain multiple entries'')
     | ParamArray input_params \<Rightarrow>
        if length (material_keys (material self)) > 2
        then Raises (Exception ''BrushConstraint2D currently only implemented for single material and air'')
        else (let s = shape input_params
              in if length s \<noteq> 3
                 then Raises (Exception ''BrushConstraint2D Generator can only work with 2D-Arrays'')
                 else (case py_index s (axis self) of
                         None \<Rightarrow> Raises IndexError
                       | Some size_axis \<Rightarrow>
                          if size_axis \<noteq> 1
                          then Raises (Exception ''BrushConstraint2D Generator needs array size 1 in axis'')
                          else (let a = normalize_axis 3 (axis self);
                                    arr_2d = jnp_take0 input_params a
                                in case trace_body_fn (elems arr_2d) of
                                     Some e \<Rightarrow> Raises e
                                   | None \<Rightarrow>
                                (case brush_generator (brush self) (shape arr_2d ! 0, shape arr_2d ! 1) (elems arr_2d) of
                                     None \<Rightarrow> Diverges
                                   | Some solid \<Rightarrow>
                                      (let cur_result = one_minus_mask solid
                                       in case air_name (material self) of
                                            None \<Rightarrow> Raises (Exception ''Could not find air'')
                                          | Some air \<Rightarrow>
                                             (case list_index (ordered_names (material self)) air of
                                                None \<Rightarrow> Raises ValueError
                                              | Some air_idx \<Rightarrow>
                                                 (let cur_result = (if air_idx \<noteq> 0 then one_minus cur_result else cur_result);
                                                      cur_result = expand_dims \<lparr>shape = shape arr_2d, elems = cur_result\<rparr> a
                                                  in Returns (straight_through_estimator input_params cur_result)))))))))"

definition raises :: "'a outcome \<Rightarrow> bool" where
  "raises r = (case r of Raises e \<Rightarrow> True | Diverges \<Rightarrow> False | Returns v \<Rightarrow> False)"

definition forward_of :: "'a bridged outcome \<Rightarrow> 'a ndarray outcome" where
  "forward_of r = (case r of Raises e \<Rightarrow> Raises e | Diverges \<Rightarrow> Diverges | Returns v \<Rightarrow> Returns (forward v))"

text \<open>\<open>closest_first allowed v k\<close>: \<open>allowed ! k\<close> is closest to \<open>v\<close> and every lower index
  is strictly farther, in exact arithmetic.\<close>

definition closest_first :: "real list \<Rightarrow> real \<Rightarrow> nat \<Rightarrow> bool" where
  "closest_first allowed v k \<longleftrightarrow>
     k < length allowed \<and>
     (\<forall>j<length allowed. \<bar>v - allowed ! k\<bar> \<le> \<bar>v - allowed ! j\<bar>) \<and>
     (\<forall>j<k. \<bar>v - allowed ! k\<bar> < \<bar>v - allowed ! j\<bar>)"

text \<open>Catalogs and a slice used to instantiate the statements.\<close>

definition two_material_air_first :: material_catalog where
  "two_material_air_first =
     \<lparr>material_keys = [''air'', ''polymer''], allowed_permittivities = [1, 2],
      ordered_names = [''air'', ''polymer''], air_name = Some ''air''\<rparr>"

definition two_material_air_last :: material_catalog where
  "two_material_air_last =
     \<lparr>material_keys = [''air'', ''polymer''], allowed_permittivities = [2, 1],
      ordered_names = [''polymer'', ''air''], air_name = Some ''air''\<rparr>"

definition only_air :: material_catalog where
  "only_air =
     \<lparr>material_keys = [''air''], allowed_permittivities = [1],
      ordered_names = [''air''], air_name = Some ''air''\<rparr>"

definition example_slice :: "real ndarray" where
  "example_slice = \<lparr>shape = [1, 1, 2], elems = [1, - 1]\<rparr>"

definition empty_slice :: "real ndarray" where
  "empty_slice = \<lparr>shape = [1, 0, 5], elems = []\<rparr>"


definition example_brush_constraint :: "material_catalog \<Rightarrow> brush_constraint_2d" where
  "example_brush_constraint cat = \<lparr>material = cat, brush = [[True]], axis = 0\<rparr>"

text \<open>The 2D slice that \<open>__call__\<close> hands to the solver, the dilation on it, and the solver's loop on it.\<close>

definition slice_2d :: "brush_constraint_2d \<Rightarrow> real ndarray \<Rightarrow> real ndarray" where
  "slice_2d self x = jnp_take0 x (normalize_axis 3 (axis self))"

definition slice_dilate :: "brush_constraint_2d \<Rightarrow> real ndarray \<Rightarrow> mask \<Rightarrow> mask" where
  "slice_dilate self x m =
     dilate_jax (shape (slice_2d self x) ! 0, shape (slice_2d self x) ! 1) m (brush self)"

definition slice_loop :: "brush_constraint_2d \<Rightarrow> real ndarray \<Rightarrow> (mask \<times> mask) option" where
  "slice_loop self x = generator_loop (slice_dilate self x) (elems (slice_2d self x))"

text \<open>The value the mask carries at a position, by whether the dilated committed-solid field covers it.\<close>

definition mask_index :: "nat \<Rightarrow> bool \<Rightarrow> int" where
  "mask_index air_idx covered =
     (if covered then (if air_idx = 0 then 0 else 1) else (if air_idx = 0 then 1 else 0))"

subsection \<open>\<open>PillarDiscretization\<close>\<close>

text \<open>Element \<open>[i, j, k]\<close> of a rank-3 array.\<close>

definition at3 :: "'a ndarray \<Rightarrow> nat \<Rightarrow> nat \<Rightarrow> nat \<Rightarrow> 'a" where
  "at3 x i j k = elems x ! ((i * (shape x ! 1) + j) * (shape x ! 2) + k)"

text \<open>\<open>jnp.transpose(x, axes=(a0, a1, a2))\<close> on a rank-3 array: axis \<open>k\<close> of the result is
  axis \<open>a\<^sub>k\<close> of \<open>x\<close>.\<close>

definition jnp_transpose :: "'a ndarray \<Rightarrow> nat \<times> nat \<times> nat \<Rightarrow> 'a ndarray" where
  "jnp_transpose x axes =
     (let a0 = fst axes; a1 = fst (snd axes); a2 = snd (snd axes);
          d0 = shape x ! a0; d1 = shape x ! a1; d2 = shape x ! a2
      in \<lparr>shape = [d0, d1, d2],
          elems = concat (map (\<lambda>i0. concat (map (\<lambda>i1. map (\<lambda>i2.
                     at3 x (if a0 = 0 then i0 else if a1 = 0 then i1 else i2)
                           (if a0 = 1 then i0 else if a1 = 1 then i1 else i2)
                           (if a0 = 2 then i0 else if a1 = 2 then i1 else i2))
                    [0..<d2]) [0..<d1])) [0..<d0])\<rparr>)"

text \<open>The allowed-index table \<open>self._allowed_indices\<close> is a rank-2 array with one row per valid
  index sequence; it is built at initialisation by \<open>compute_allowed_indices\<close>, which is outside
  this excerpt.  \<open>table[idx]\<close> with an integer array \<open>idx\<close> gathers rows; JAX clamps an index
  that is out of range.\<close>

definition table_row :: "nat ndarray \<Rightarrow> nat \<Rightarrow> nat list" where
  "table_row table k = take (shape table ! 1) (drop (k * (shape table ! 1)) (elems table))"

definition table_rows :: "nat ndarray \<Rightarrow> nat list list" where
  "table_rows table = map (table_row table) [0..<shape table ! 0]"

definition gather_rows :: "nat ndarray \<Rightarrow> nat ndarray \<Rightarrow> nat ndarray" where
  "gather_rows table idx =
     \<lparr>shape = shape idx @ [shape table ! 1],
      elems = concat (map (\<lambda>k. table_row table (min k (shape table ! 0 - 1))) (elems idx))\<rparr>"

record pillar_discretization =
  pillar_material :: material_catalog
  pillar_axis :: int
  single_polymer_columns :: bool
  distance_metric :: string
  allowed_indices :: "nat ndarray"

text \<open>\<open>PillarDiscretization.__call__\<close>.  \<open>nearest_index\<close> is imported from a module outside
  this excerpt and is the first parameter.\<close>

definition PillarDiscretization_call ::
  "(real ndarray \<Rightarrow> real list \<Rightarrow> int \<Rightarrow> string \<Rightarrow> nat ndarray \<Rightarrow> nat ndarray) \<Rightarrow>
     pillar_discretization \<Rightarrow> real input_params \<Rightarrow> error + nat bridged" where
  "PillarDiscretization_call nearest_index self input =
    (case input of
       ParamDict d \<Rightarrow>
         Inl (Exception ''BrushConstraint2D cannot be used with latent parameters that contain multiple entries'')
     | ParamArray input_params \<Rightarrow>
        (let allowed_inv_perms = map (\<lambda>p. 1 / p) (allowed_permittivities (pillar_material self));
             nearest_allowed_index =
               nearest_index input_params allowed_inv_perms (pillar_axis self) (distance_metric self)
                 (allowed_indices self);
             result_index = gather_rows (allowed_indices self) nearest_allowed_index
         in if pillar_axis self = 2 then Inr (straight_through_estimator input_params result_index)
            else if pillar_axis self = 1
            then Inr (straight_through_estimator input_params (jnp_transpose result_index (0, 2, 1)))
            else if pillar_axis self = 0
            then Inr (straight_through_estimator input_params (jnp_transpose result_index (2, 0, 1)))
            else Inl (Exception ''invalid axis'')))"

text \<open>The index array that \<open>__call__\<close> receives from \<open>nearest_index\<close>.\<close>

definition nearest_allowed_index ::
  "(real ndarray \<Rightarrow> real list \<Rightarrow> int \<Rightarrow> string \<Rightarrow> nat ndarray \<Rightarrow> nat ndarray) \<Rightarrow>
     pillar_discretization \<Rightarrow> real ndarray \<Rightarrow> nat ndarray" where
  "nearest_allowed_index nearest_index self x =
     nearest_index x (map (\<lambda>p. 1 / p) (allowed_permittivities (pillar_material self)))
       (pillar_axis self) (distance_metric self) (allowed_indices self)"

text \<open>A pillar module with three valid sequences of two layers, and an input of shape
  \<open>(2, 1, 2)\<close> constrained along axis 0.\<close>

definition example_pillar :: pillar_discretization where
  "example_pillar =
     \<lparr>pillar_material = \<lparr>material_keys = [''air'', ''polymer''], allowed_permittivities = [1, 2],
                          ordered_names = [''air'', ''polymer''], air_name = Some ''air''\<rparr>,
      pillar_axis = 0, single_polymer_columns = True,
      distance_metric = ''euclidean'',
      allowed_indices = \<lparr>shape = [3, 2], elems = [0, 0, 0, 1, 1, 1]\<rparr>\<rparr>"

definition example_nearest_index ::
  "real ndarray \<Rightarrow> real list \<Rightarrow> int \<Rightarrow> string \<Rightarrow> nat ndarray \<Rightarrow> nat ndarray" where
  "example_nearest_index x allowed ax metric table = \<lparr>shape = [1, 2], elems = [1, 2]\<rparr>"

definition example_pillar_input :: "real ndarray" where
  "example_pillar_input = \<lparr>shape = [2, 1, 2], elems = [1, 1, 1 / 2, 1 / 2]\<rparr>"

text \<open>The 1-D column of a rank-3 array along \<open>ax\<close> at the position \<open>(i, j)\<close> of the two
  other axes, in their order.\<close>

definition column_along :: "'a ndarray \<Rightarrow> int \<Rightarrow> nat \<Rightarrow> nat \<Rightarrow> 'a list" where
  "column_along x ax i j =
     (if ax = 2 then map (\<lambda>l. at3 x i j l) [0..<shape x ! 2]
      else if ax = 1 then map (\<lambda>l. at3 x i l j) [0..<shape x ! 1]
      else map (\<lambda>l. at3 x l i j) [0..<shape x ! 0])"






text \<open>A 3 by 3 brush that contains its centre, the dilation of a 3 by 3 slice by it, a slice,
  and the states the solver runs through on that slice.\<close>

definition corner_brush :: "bool list list" where
  "corner_brush = [[True, False, False], [True, True, False], [False, False, False]]"

definition corner_dilate :: "mask \<Rightarrow> mask" where
  "corner_dilate m = dilate_jax (3, 3) m corner_brush"

definition corner_slice :: "real list" where
  "corner_slice = [- 1, - 1, - 1, 1, 0, - 1, 0, 0, 0]"

definition corner_state :: "nat \<Rightarrow> mask \<times> mask" where
  "corner_state k =
     (if k = 0 then (replicate 9 False, replicate 9 False)
      else if k = 1 then ([True, False, False, False, False, False, False, False, False],
                           [False, False, False, False, False, False, False, False, False])
      else if k = 2 then ([True, True, True, False, False, False, False, False, False],
                           [False, False, False, False, False, False, False, False, False])
      else if k = 3 then ([True, True, True, False, False, True, False, False, False],
                           [False, False, False, False, False, False, False, False, False])
      else if k = 4 then ([True, True, True, False, False, True, False, False, False],
                           [False, False, False, True, False, False, False, False, False])
      else ([True, True, True, False, False, True, True, False, False],
            [False, False, False, True, False, False, False, False, False]))"

section \<open>Properties\<close>

subsection \<open>Binary dilation\<close>






subsection \<open>Maximum and argmax\<close>

lemma gt_ext_irrefl: "\<not> gt_ext x x"
  by (cases x) auto

lemma jnp_max_upper: "x \<in> set xs \<Longrightarrow> \<not> gt_ext x (jnp_max xs)"
proof (induction xs)
  case Nil then show ?case by simp
next
  case (Cons y ys)
  show ?case
  proof (cases "x = y")
    case True
    then show ?thesis
      by (cases y; cases "jnp_max ys") (auto simp: gt_ext_irrefl)
  next
    case False
    with Cons have ih: "\<not> gt_ext x (jnp_max ys)" by simp
    show ?thesis
      using ih by (cases x; cases y; cases "jnp_max ys") auto
  qed
qed

lemma jnp_argmax_less: "xs \<noteq> [] \<Longrightarrow> jnp_argmax xs < length xs"
proof (induction xs)
  case Nil then show ?case by simp
next
  case (Cons y ys)
  show ?case
  proof (cases "ys = []")
    case True then show ?thesis by simp
  next
    case False
    with Cons show ?thesis by simp
  qed
qed

lemma jnp_argmax_max: "xs \<noteq> [] \<Longrightarrow> xs ! jnp_argmax xs = jnp_max xs"
proof (induction xs)
  case Nil then show ?case by simp
next
  case (Cons y ys)
  show ?case
  proof (cases "ys = []")
    case True then show ?thesis by simp
  next
    case False
    with Cons show ?thesis by simp
  qed
qed

lemma jnp_argmax_first: "i < jnp_argmax xs \<Longrightarrow> gt_ext (jnp_max xs) (xs ! i)"
proof (induction xs arbitrary: i)
  case Nil then show ?case by simp
next
  case (Cons y ys)
  from Cons.prems have g: "gt_ext (jnp_max ys) y"
    by (auto split: if_splits)
  show ?case
  proof (cases i)
    case 0
    with g show ?thesis by simp
  next
    case (Suc j)
    with Cons.prems g have "j < jnp_argmax ys" by simp
    with Cons.IH have "gt_ext (jnp_max ys) (ys ! j)" by blast
    with g Suc show ?thesis by simp
  qed
qed

lemma length_where [simp]: "length (where_or_neg_inf m a) = min (length m) (length a)"
  by (simp add: where_or_neg_inf_def)

lemma nth_where:
  "i < length m \<Longrightarrow> i < length a \<Longrightarrow> where_or_neg_inf m a ! i = (if m ! i then Some (a ! i) else None)"
  by (simp add: where_or_neg_inf_def)

lemma where_mem:
  "j < length a \<Longrightarrow> length m = length a \<Longrightarrow> m ! j \<Longrightarrow> Some (a ! j) \<in> set (where_or_neg_inf m a)"
proof -
  assume a: "j < length a" "length m = length a" "m ! j"
  then have "where_or_neg_inf m a ! j = Some (a ! j)" by (simp add: nth_where)
  moreover from a have "j < length (where_or_neg_inf m a)" by simp
  ultimately show ?thesis using nth_mem by metis
qed

lemma length_negate [simp]: "length (negate a) = length a"
  by (simp add: negate_def)

lemma nth_negate [simp]: "i < length a \<Longrightarrow> negate a ! i = - (a ! i)"
  by (simp add: negate_def)

lemma jnp_any_iff: "jnp_any m \<longleftrightarrow> (\<exists>i<length m. m ! i)"
  unfolding jnp_any_def list_ex_length by (rule refl)


lemma jnp_max_None_iff: "jnp_max xs = None \<longleftrightarrow> (\<forall>x\<in>set xs. x = None)"
proof (induction xs)
  case Nil then show ?case by simp
next
  case (Cons y ys)
  then show ?case by (cases y; cases "jnp_max ys") auto
qed

lemma jnp_max_where_None_iff:
  assumes "length m = length a"
  shows "jnp_max (where_or_neg_inf m a) = None \<longleftrightarrow> \<not> jnp_any m"
proof -
  have "(\<forall>x\<in>set (where_or_neg_inf m a). x = None) \<longleftrightarrow> (\<forall>i<length m. \<not> m ! i)"
    using assms by (auto simp: all_set_conv_all_nth nth_where)
  then show ?thesis by (simp add: jnp_max_None_iff jnp_any_iff)
qed

lemma argmax_where_first_best:
  assumes len: "length m = length a" and mx: "jnp_max (where_or_neg_inf m a) = Some v"
  shows "first_best m a (jnp_argmax (where_or_neg_inf m a)) \<and> a ! jnp_argmax (where_or_neg_inf m a) = v"
proof -
  let ?vs = "where_or_neg_inf m a"
  let ?k = "jnp_argmax ?vs"
  from mx have ne: "?vs \<noteq> []" by auto
  have k: "?k < length a" using jnp_argmax_less [OF ne] len by simp
  have at: "?vs ! ?k = Some v" using jnp_argmax_max [OF ne] mx by simp
  from at k len have mk: "m ! ?k" and ak: "a ! ?k = v"
    by (auto simp: nth_where split: if_splits)
  have up: "a ! j \<le> a ! ?k" if "j < length a" "m ! j" for j
  proof -
    from that len have "Some (a ! j) \<in> set ?vs"
      by (simp add: where_mem)
    from jnp_max_upper [OF this] mx ak show ?thesis by simp
  qed
  have first: "a ! j < a ! ?k" if "j < ?k" "m ! j" for j
  proof -
    from that k len have "?vs ! j = Some (a ! j)" by (simp add: nth_where)
    with jnp_argmax_first [OF that(1)] mx ak show ?thesis by simp
  qed
  from k mk up first ak show ?thesis by (simp add: first_best_def)
qed

lemma gt_ext_where_iff:
  assumes "length ms = length a" "length mv = length b"
  shows "gt_ext (jnp_max (where_or_neg_inf ms a)) (jnp_max (where_or_neg_inf mv b)) \<longleftrightarrow>
         (\<exists>i<length a. ms ! i \<and> (\<forall>j<length b. mv ! j \<longrightarrow> b ! j < a ! i))"
  (is "?L \<longleftrightarrow> ?R")
proof
  assume L: ?L
  then obtain v where v: "jnp_max (where_or_neg_inf ms a) = Some v"
    by (cases "jnp_max (where_or_neg_inf ms a)") auto
  from argmax_where_first_best [OF assms(1) v]
  have fb: "first_best ms a (jnp_argmax (where_or_neg_inf ms a))"
    and av: "a ! jnp_argmax (where_or_neg_inf ms a) = v" by auto
  have "b ! j < v" if "j < length b" "mv ! j" for j
  proof -
    from that assms have "Some (b ! j) \<in> set (where_or_neg_inf mv b)"
      by (simp add: where_mem)
    from jnp_max_upper [OF this] have "\<not> gt_ext (Some (b ! j)) (jnp_max (where_or_neg_inf mv b))" .
    with L v show ?thesis
      by (cases "jnp_max (where_or_neg_inf mv b)") auto
  qed
  with fb av show ?R unfolding first_best_def by blast
next
  assume ?R
  then obtain i where i: "i < length a" "ms ! i" and lt: "\<forall>j<length b. mv ! j \<longrightarrow> b ! j < a ! i"
    by blast
  from i assms have "jnp_any ms" by (auto simp: jnp_any_iff)
  then obtain v where v: "jnp_max (where_or_neg_inf ms a) = Some v"
    using jnp_max_where_None_iff [OF assms(1)] by (cases "jnp_max (where_or_neg_inf ms a)") auto
  from argmax_where_first_best [OF assms(1) v] i have ge: "a ! i \<le> v"
    by (auto simp: first_best_def)
  show ?L
  proof (cases "jnp_max (where_or_neg_inf mv b)")
    case None
    with v show ?thesis by simp
  next
    case (Some w)
    from argmax_where_first_best [OF assms(2) Some]
    obtain k where "k < length b" "mv ! k" "b ! k = w" by (auto simp: first_best_def)
    with lt have "w < a ! i" by blast
    with ge have "w < v" by simp
    with v Some show ?thesis by simp
  qed
qed

lemma length_mask_not [simp]: "length (mask_not a) = length a"
  by (simp add: mask_not_def)

lemma length_mask_and [simp]: "length (mask_and a b) = min (length a) (length b)"
  by (simp add: mask_and_def)

lemma length_mask_or [simp]: "length (mask_or a b) = min (length a) (length b)"
  by (simp add: mask_or_def)

lemma nth_mask_not [simp]: "i < length a \<Longrightarrow> mask_not a ! i = (\<not> a ! i)"
  by (simp add: mask_not_def)

lemma nth_mask_and [simp]: "i < length a \<Longrightarrow> i < length b \<Longrightarrow> mask_and a b ! i = (a ! i \<and> b ! i)"
  by (simp add: mask_and_def)

lemma nth_mask_or [simp]: "i < length a \<Longrightarrow> i < length b \<Longrightarrow> mask_or a b ! i = (a ! i \<or> b ! i)"
  by (simp add: mask_or_def)


















subsection \<open>Growth and disjointness of the committed fields\<close>















subsection \<open>Progress of one iteration\<close>

lemma count_true_Cons [simp]: "count_true (x # xs) = (if x then Suc (count_true xs) else count_true xs)"
  by (simp add: count_true_def)

lemma count_true_Nil [simp]: "count_true [] = 0"
  by (simp add: count_true_def)








lemma while_option_stuck:
  assumes "b s" "c s = s"
  shows "while_option b c s = None"
proof -
  have "(c ^^ k) s = s" for k
    by (induction k) (simp_all add: assms(2))
  with assms(1) show ?thesis by (simp add: while_option_def)
qed




text \<open>
  A brush that contains its centre is not enough for termination: with the brush
  \<open>corner_brush\<close> the solver reaches, after five iterations, a state without any valid
  candidate in which pixels are still uncovered, and stays there.
\<close>

lemma while_option_step:
  assumes "b s" "c s = s'"
  shows "while_option b c s = while_option b c s'"
  using assms by (subst while_option_unfold) simp

lemma centre_brush_never_terminates:
  "(0, 0) \<in> set (brush_offsets corner_brush) \<and>
   \<not> valid_exists corner_dilate (corner_state 5) \<and>
   generator_loop corner_dilate corner_slice = None"
proof -
  let ?b = "cond_fn corner_dilate" and ?c = "body_fn corner_dilate corner_slice"
  have c: "?b (corner_state 0)" "?b (corner_state 1)" "?b (corner_state 2)" "?b (corner_state 3)"
    "?b (corner_state 4)" "?b (corner_state 5)"
    by code_simp+
  have s: "?c (corner_state 0) = corner_state 1" "?c (corner_state 1) = corner_state 2"
    "?c (corner_state 2) = corner_state 3" "?c (corner_state 3) = corner_state 4"
    "?c (corner_state 4) = corner_state 5" "?c (corner_state 5) = corner_state 5"
    by code_simp+
  have "while_option ?b ?c (corner_state 0) = while_option ?b ?c (corner_state 1)"
    using c(1) s(1) by (rule while_option_step)
  also have "\<dots> = while_option ?b ?c (corner_state 2)"
    using c(2) s(2) by (rule while_option_step)
  also have "\<dots> = while_option ?b ?c (corner_state 3)"
    using c(3) s(3) by (rule while_option_step)
  also have "\<dots> = while_option ?b ?c (corner_state 4)"
    using c(4) s(4) by (rule while_option_step)
  also have "\<dots> = while_option ?b ?c (corner_state 5)"
    using c(5) s(5) by (rule while_option_step)
  also have "\<dots> = None"
    using c(6) s(6) by (rule while_option_stuck)
  finally have n: "while_option ?b ?c (corner_state 0) = None" .
  have z: "zeros_like corner_slice = replicate 9 False" "zeros_like (replicate 9 False) = replicate 9 False"
    by code_simp+
  have "corner_state 0 = (replicate 9 False, replicate 9 False)"
    by (simp add: corner_state_def)
  with n z have "generator_loop corner_dilate corner_slice = None"
    by (simp only: generator_loop_def Let_def)
  moreover have "(0, 0) \<in> set (brush_offsets corner_brush)" by code_simp
  moreover have "\<not> valid_exists corner_dilate (corner_state 5)" by code_simp
  ultimately show ?thesis by simp
qed

section \<open>Resetting the array container\<close>

lemma reset_boundaries_Inr:
  assumes "\<forall>b\<in>set bs. name b \<in> dom old"
  shows "\<exists>m. reset_boundaries reset_state old bs acc = Inr m"
  using assms
proof (induction bs arbitrary: acc)
  case Nil
  then show ?case by simp
next
  case (Cons b bs)
  from Cons.prems obtain st where "old (name b) = Some st" by auto
  with Cons show ?case by simp
qed

lemma float_times_zero_cases: "float_times_zero v = (if is_finite v then Finite 0 else NaN)"
  by (cases v) (simp_all add: is_finite_def)

lemma elems_times_zero:
  "elems (times_zero a) = map (\<lambda>v. if is_finite v then Finite 0 else NaN) (elems a)"
  by (simp add: times_zero_def float_times_zero_cases)

lemma all_zero_times_zero: "all_finite a \<Longrightarrow> all_zero (times_zero a)"
  by (simp add: all_zero_def all_finite_def elems_times_zero list_all_iff)

lemma shape_times_zero: "shape (times_zero a) = shape a" "length (elems (times_zero a)) = length (elems a)"
  by (simp_all add: times_zero_def)

text \<open>An infinite or NaN element does not become zero.\<close>

lemma times_zero_inf_nan:
  "times_zero \<lparr>shape = [3], elems = [PosInf, NaN, Finite 2]\<rparr> = \<lparr>shape = [3], elems = [NaN, NaN, Finite 0]\<rparr> \<and>
   \<not> all_zero (times_zero \<lparr>shape = [3], elems = [PosInf, NaN, Finite 2]\<rparr>)"
  by (simp add: times_zero_def all_zero_def)

text \<open>
  Claim C10 (as amended).  Whenever every boundary object of the object container has an
  entry in the array container's \<open>boundary_states\<close>, \<open>reset_array_container\<close> returns a
  container whose E and H fields have the shape they had and are zero at every element that
  was finite (and NaN at every element that was an infinity or NaN), so they are all zero
  when the input fields are finite; its inverse permittivities, inverse permeabilities,
  electric and magnetic conductivity are unchanged; its detector states equal the input's
  detector states whatever the flag \<open>reset_detector_states\<close> is.
\<close>

theorem reset_array_container_frame:
  assumes "\<forall>b\<in>set (boundary_objects objs). name b \<in> dom (boundary_states arrays)"
  shows "\<exists>r. reset_array_container reset_state arrays objs reset_detector_states reset_recording_state = Inr r \<and>
           shape (E r) = shape (E arrays) \<and>
           elems (E r) = map (\<lambda>v. if is_finite v then Finite 0 else NaN) (elems (E arrays)) \<and>
           (all_finite (E arrays) \<longrightarrow> all_zero (E r)) \<and>
           shape (H r) = shape (H arrays) \<and>
           elems (H r) = map (\<lambda>v. if is_finite v then Finite 0 else NaN) (elems (H arrays)) \<and>
           (all_finite (H arrays) \<longrightarrow> all_zero (H r)) \<and>
           inv_permittivities r = inv_permittivities arrays \<and>
           inv_permeabilities r = inv_permeabilities arrays \<and>
           electric_conductivity r = electric_conductivity arrays \<and>
           magnetic_conductivity r = magnetic_conductivity arrays \<and>
           detector_states r = detector_states arrays"
proof -
  from reset_boundaries_Inr [OF assms]
  obtain m where "reset_boundaries reset_state (boundary_states arrays) (boundary_objects objs) Map.empty = Inr m"
    by blast
  then show ?thesis
    by (simp add: reset_array_container_def Let_def all_zero_times_zero shape_times_zero elems_times_zero)
qed

text \<open>The theorem at a container with one boundary, with \<open>reset_detector_states\<close> set.\<close>

theorem reset_array_container_frame_witness:
  "\<exists>r. reset_array_container (\<lambda>b st. st) example_arrays example_objects True False = Inr r \<and>
       all_zero (E r) \<and> all_zero (H r) \<and> detector_states r = detector_states example_arrays"
  using reset_array_container_frame [of example_objects example_arrays "\<lambda>b st. st" True False]
  by (auto simp: boundary_objects_def objects_def example_objects_def example_arrays_def
        all_finite_def is_finite_def)

text \<open>
  Claim C10 as stated, for every pair of containers, fails: a boundary object without an
  entry in \<open>boundary_states\<close> makes the function raise \<open>KeyError\<close>.
\<close>

theorem reset_array_container_key_error_counterexample:
  "reset_array_container (\<lambda>b st. st) example_arrays
     \<lparr>object_list = [\<lparr>name = ''periodic'', object_class = PeriodicBoundary\<rparr>], volume_idx = 0\<rparr> False False
   = Inl (KeyError ''periodic'')"
  by (simp add: reset_array_container_def Let_def boundary_objects_def objects_def example_arrays_def)

section \<open>Floating-point rounding\<close>

lemma pow2_pos: "0 < pow2 e"
  by (simp add: pow2_def)

lemma pow2_Suc: "pow2 (e + 1) = 2 * pow2 e"
proof (cases "0 \<le> e")
  case True
  then show ?thesis by (simp add: pow2_def nat_add_distrib)
next
  case False
  then have "nat (- e) = Suc (nat (- (e + 1)))" by simp
  with False show ?thesis by (auto simp: pow2_def)
qed

lemma pow2_mono: "e1 \<le> e2 \<Longrightarrow> pow2 e1 \<le> pow2 e2"
proof (induction e2 rule: int_ge_induct)
  case base
  then show ?case by simp
next
  case (step i)
  have "pow2 i \<le> 2 * pow2 i" using pow2_pos [of i] by simp
  with step show ?case by (simp add: pow2_Suc)
qed

lemma float_exponent_eq:
  assumes "1 - emax fmt \<le> e" "e \<le> emax fmt" "pow2 e \<le> \<bar>x\<bar>" "\<bar>x\<bar> < pow2 (e + 1)"
  shows "float_exponent fmt x = e"
proof -
  let ?es = "filter (\<lambda>e. pow2 e \<le> \<bar>x\<bar>) [1 - emax fmt..emax fmt]"
  from assms have mem: "e \<in> set ?es" by simp
  have ne: "?es \<noteq> []"
  proof
    assume a: "?es = []"
    from mem show False unfolding a by simp
  qed
  have "Max (set ?es) = e"
  proof (rule Max_eqI)
    show "finite (set ?es)" by (rule finite_set)
    show "e \<in> set ?es" by (rule mem)
    fix y assume "y \<in> set ?es"
    then have y: "pow2 y \<le> \<bar>x\<bar>" by simp
    show "y \<le> e"
    proof (rule ccontr)
      assume "\<not> y \<le> e"
      then have "e + 1 \<le> y" by simp
      from pow2_mono [OF this] y assms(4) show False by simp
    qed
  qed
  with ne show ?thesis by (simp add: float_exponent_def Let_def)
qed

lemma float_exponent_small:
  assumes "\<bar>x\<bar> < pow2 (1 - emax fmt)"
  shows "float_exponent fmt x = 1 - emax fmt"
proof -
  have "filter (\<lambda>e. pow2 e \<le> \<bar>x\<bar>) [1 - emax fmt..emax fmt] = []"
  proof (rule filter_False, rule ballI)
    fix e assume "e \<in> set [1 - emax fmt..emax fmt]"
    then have "1 - emax fmt \<le> e" by simp
    from pow2_mono [OF this] assms show "\<not> pow2 e \<le> \<bar>x\<bar>" by simp
  qed
  then show ?thesis by (simp add: float_exponent_def Let_def)
qed

lemma round_half_even_of_int: "round_half_even (of_int m) = m"
  by (simp add: round_half_even_def Let_def)

lemma round_to_format_exact:
  assumes "1 - emax fmt \<le> e" "e \<le> emax fmt" "pow2 e \<le> \<bar>x\<bar>" "\<bar>x\<bar> < pow2 (e + 1)"
    and "x = of_int m * pow2 (e - int (precision fmt) + 1)"
  shows "round_to_format fmt x = Finite x"
proof -
  let ?q = "pow2 (e - int (precision fmt) + 1)"
  have q: "?q \<noteq> 0" using pow2_pos [of "e - int (precision fmt) + 1"] by simp
  from assms(5) q have "x / ?q = of_int m" by simp
  then have y: "of_int (round_half_even (x / ?q)) * ?q = x"
    using assms(5) by (simp add: round_half_even_of_int)
  have "pow2 (e + 1) \<le> pow2 (emax fmt + 1)" using assms(2) by (intro pow2_mono) simp
  with assms(4) have "\<not> pow2 (emax fmt + 1) \<le> \<bar>x\<bar>" by simp
  with y show ?thesis
    by (simp add: round_to_format_def Let_def float_exponent_eq [OF assms(1-4)])
qed

lemma round_to_format_zero: "round_to_format fmt 0 = Finite 0"
  by (simp add: round_to_format_def Let_def round_half_even_def not_le pow2_pos)

lemma round_to_format_binade:
  assumes "1 - emax fmt \<le> e" "e \<le> emax fmt" "pow2 e \<le> \<bar>x\<bar>" "\<bar>x\<bar> < pow2 (e + 1)"
  shows "round_to_format fmt x =
     (let q = pow2 (e - int (precision fmt) + 1);
          y = of_int (round_half_even (x / q)) * q
      in if pow2 (emax fmt + 1) \<le> \<bar>y\<bar> then (if 0 < x then PosInf else NegInf) else Finite y)"
  by (simp add: round_to_format_def float_exponent_eq [OF assms])

text \<open>Rounding in \<open>float32\<close>: a value with a 24-bit significand is kept, the two values
  \<open>10\<^sup>8 - 1/2\<close> and \<open>10\<^sup>8 - 1\<close> lie between the neighbouring values \<open>10\<^sup>8 - 8\<close> and \<open>10\<^sup>8\<close> of
  the format and round to \<open>10\<^sup>8\<close>, and the largest finite value is \<open>2\<^sup>1\<^sup>2\<^sup>8 - 2\<^sup>1\<^sup>0\<^sup>4\<close>.\<close>

lemma binary32_exact:
  assumes "- 126 \<le> e" "e \<le> 127" "pow2 e \<le> \<bar>x\<bar>" "\<bar>x\<bar> < pow2 (e + 1)"
    and "x = of_int m * pow2 (e - 23)"
  shows "round_to_format binary32 x = Finite x"
  using assms by (intro round_to_format_exact [where e = e and m = m]) (simp_all add: binary32_def)

lemma binary32_round_examples:
  "round_to_format binary32 1 = Finite 1"
  "round_to_format binary32 2 = Finite 2"
  "round_to_format binary32 (1 / 2) = Finite (1 / 2)"
  "round_to_format binary32 100000000 = Finite 100000000"
  "round_to_format binary32 16777217 = Finite 16777216"
  "round_to_format binary32 (100000000 - 1 / 2) = Finite 100000000"
  "round_to_format binary32 (100000000 - 1) = Finite 100000000"
  "round_to_format binary32 (2 ^ 128 - 2 ^ 104) = Finite (2 ^ 128 - 2 ^ 104)"
  "round_to_format binary32 (2 ^ 128 - 2 ^ 103) = PosInf"
proof -
  show "round_to_format binary32 1 = Finite 1"
    by (rule binary32_exact [where e = 0 and m = 8388608]) (simp_all add: pow2_def)
  show "round_to_format binary32 2 = Finite 2"
    by (rule binary32_exact [where e = 1 and m = 8388608]) (simp_all add: pow2_def)
  show "round_to_format binary32 (1 / 2) = Finite (1 / 2)"
    by (rule binary32_exact [where e = "- 1" and m = 8388608]) (simp_all add: pow2_def)
  show "round_to_format binary32 100000000 = Finite 100000000"
    by (rule binary32_exact [where e = 26 and m = 12500000]) (simp_all add: pow2_def)
  show "round_to_format binary32 16777217 = Finite 16777216"
    by (simp add: round_to_format_binade [where e = 24] binary32_def pow2_def round_half_even_def Let_def)
  show "round_to_format binary32 (100000000 - 1 / 2) = Finite 100000000"
    by (simp add: round_to_format_binade [where e = 26] binary32_def pow2_def round_half_even_def Let_def)
  show "round_to_format binary32 (100000000 - 1) = Finite 100000000"
    by (simp add: round_to_format_binade [where e = 26] binary32_def pow2_def round_half_even_def Let_def)
  show "round_to_format binary32 (2 ^ 128 - 2 ^ 104) = Finite (2 ^ 128 - 2 ^ 104)"
    by (rule binary32_exact [where e = 127 and m = 16777215]) (simp_all add: pow2_def)
  show "round_to_format binary32 (2 ^ 128 - 2 ^ 103) = PosInf"
    by (simp add: round_to_format_binade [where e = 127] binary32_def pow2_def round_half_even_def Let_def)
qed

lemma inverse_permittivities_examples:
  "inverse_permittivities binary32 two_material_air_first = [Finite 1, Finite (1 / 2)]"
  "inverse_permittivities binary32 two_material_air_last = [Finite (1 / 2), Finite 1]"
  by (simp_all add: inverse_permittivities_def two_material_air_first_def two_material_air_last_def
        binary32_round_examples)

section \<open>Properties of \<open>ClosestIndex\<close>\<close>

lemma float_less_irrefl: "\<not> float_less a a"
  by (cases a) simp_all

lemma float_less_between:
  "float_less a x \<Longrightarrow> \<not> float_less m x \<Longrightarrow> \<not> is_nan m \<Longrightarrow> float_less a m"
  by (cases a; cases x; cases m) (simp_all add: is_nan_def)

lemma jnp_argmin_Cons:
  "xs \<noteq> [] \<Longrightarrow> jnp_argmin (x # xs) =
     (if is_nan x then 0
      else if is_nan (xs ! jnp_argmin xs) \<or> float_less (xs ! jnp_argmin xs) x then Suc (jnp_argmin xs)
      else 0)"
  by (cases xs) (simp_all add: Let_def)

lemma jnp_argmin_less: "xs \<noteq> [] \<Longrightarrow> jnp_argmin xs < length xs"
proof (induction xs)
  case Nil
  then show ?case by simp
next
  case (Cons y ys)
  show ?case
  proof (cases "ys = []")
    case True
    then show ?thesis by simp
  next
    case False
    with Cons show ?thesis by (simp add: jnp_argmin_Cons)
  qed
qed

lemma jnp_argmin_lowest_minimal:
  assumes "xs \<noteq> []" "\<forall>x\<in>set xs. \<not> is_nan x"
  shows "lowest_minimal xs (jnp_argmin xs)"
  using assms
proof (induction xs)
  case Nil
  then show ?case by simp
next
  case (Cons x rest)
  show ?case
  proof (cases "rest = []")
    case True
    then show ?thesis by (simp add: lowest_minimal_def float_less_irrefl)
  next
    case False
    let ?k = "jnp_argmin rest"
    let ?m = "rest ! ?k"
    from Cons.prems have nn: "\<forall>y\<in>set rest. \<not> is_nan y" and nx: "\<not> is_nan x" by simp_all
    from Cons.IH [OF False nn] have ih: "lowest_minimal rest ?k" .
    then have k: "?k < length rest"
      and mn: "\<And>j. j < length rest \<Longrightarrow> \<not> float_less (rest ! j) ?m"
      and lo: "\<And>j. j < ?k \<Longrightarrow> float_less ?m (rest ! j)"
      by (simp_all add: lowest_minimal_def)
    from k nn have nm: "\<not> is_nan ?m" by simp
    show ?thesis
    proof (cases "float_less ?m x")
      case True
      then have r: "jnp_argmin (x # rest) = Suc ?k"
        using False nx by (simp add: jnp_argmin_Cons)
      have a: "\<not> float_less ((x # rest) ! j) ?m" if "j < Suc (length rest)" for j
      proof (cases j)
        case 0
        have "\<not> float_less x ?m"
          using True by (cases x; cases ?m) simp_all
        with 0 show ?thesis by simp
      next
        case (Suc j')
        with that mn [of j'] show ?thesis by simp
      qed
      have b: "float_less ?m ((x # rest) ! j)" if "j < Suc ?k" for j
      proof (cases j)
        case 0
        with True show ?thesis by simp
      next
        case (Suc j')
        with that lo [of j'] show ?thesis by simp
      qed
      from k a b show ?thesis
        unfolding r lowest_minimal_def by simp
    next
      case nlt: False
      then have r: "jnp_argmin (x # rest) = 0"
        using False nx nm by (simp add: jnp_argmin_Cons)
      have a: "\<not> float_less ((x # rest) ! j) x" if "j < Suc (length rest)" for j
      proof (cases j)
        case 0
        then show ?thesis by (simp add: float_less_irrefl)
      next
        case (Suc j')
        with that have j': "j' < length rest" by simp
        have "\<not> float_less (rest ! j') x"
        proof
          assume "float_less (rest ! j') x"
          from float_less_between [OF this nlt nm] mn [OF j'] show False by simp
        qed
        with Suc show ?thesis by simp
      qed
      from a show ?thesis
        unfolding r lowest_minimal_def by simp
    qed
  qed
qed

lemma lowest_minimal_exact:
  assumes "lowest_minimal (map (\<lambda>y. Finite \<bar>x - y\<bar>) ys) k"
  shows "closest_first ys x k"
  using assms by (auto simp: lowest_minimal_def closest_first_def not_less)

lemma distances_exact:
  assumes "inverse_permittivities fmt cat = map Finite ys"
    and "\<forall>y\<in>set ys. float_sub fmt (Finite x) (Finite y) = Finite (x - y)"
  shows "distances fmt cat (Finite x) = map (\<lambda>y. Finite \<bar>x - y\<bar>) ys"
  using assms by (simp add: distances_def)

lemma ClosestIndex_call_array:
  assumes "allowed_permittivities cat \<noteq> []"
  shows "ClosestIndex_call fmt cat (ParamArray arr) =
           Inr (straight_through_estimator arr
                  \<lparr>shape = shape arr, elems = map (\<lambda>v. jnp_argmin (distances fmt cat v)) (elems arr)\<rparr>)"
  using assms
  by (simp add: ClosestIndex_call_def Let_def distances_def [abs_def] inverse_permittivities_def comp_def)

text \<open>
  Claim C6 (as amended).  For a single-tensor input and a non-empty catalog, every position
  of the output of \<open>ClosestIndex.__call__\<close> at which no computed distance is NaN is the lowest
  index whose computed distance is minimal: the distances are the floating-point values
  \<open>|v - a|\<close>, rounded to the format of the arrays, no computed distance is smaller and every
  lower index has a greater one.  Whenever the differences are computed without rounding
  error, this is the index of the allowed inverse permittivity closest to the input value,
  the lowest one on ties.
\<close>

theorem ClosestIndex_lowest_computed_distance:
  assumes "allowed_permittivities cat \<noteq> []"
  shows "\<exists>r. ClosestIndex_call fmt cat (ParamArray arr) = Inr r \<and>
           shape (forward r) = shape arr \<and>
           length (elems (forward r)) = length (elems arr) \<and>
           (\<forall>p<length (elems arr).
              (\<forall>d\<in>set (distances fmt cat (elems arr ! p)). \<not> is_nan d) \<longrightarrow>
              lowest_minimal (distances fmt cat (elems arr ! p)) (elems (forward r) ! p)) \<and>
           (\<forall>p<length (elems arr). \<forall>x ys.
              elems arr ! p = Finite x \<and> inverse_permittivities fmt cat = map Finite ys \<and>
              (\<forall>y\<in>set ys. float_sub fmt (Finite x) (Finite y) = Finite (x - y)) \<longrightarrow>
              closest_first ys x (elems (forward r) ! p))"
proof -
  let ?r = "straight_through_estimator arr
              \<lparr>shape = shape arr, elems = map (\<lambda>v. jnp_argmin (distances fmt cat v)) (elems arr)\<rparr>"
  from assms have ne: "distances fmt cat v \<noteq> []" for v
    by (simp add: distances_def inverse_permittivities_def)
  have call: "ClosestIndex_call fmt cat (ParamArray arr) = Inr ?r"
    by (rule ClosestIndex_call_array [OF assms])
  have fw: "forward ?r = \<lparr>shape = shape arr, elems = map (\<lambda>v. jnp_argmin (distances fmt cat v)) (elems arr)\<rparr>"
    by (simp add: straight_through_estimator_def)
  have a: "lowest_minimal (distances fmt cat (elems arr ! p)) (elems (forward ?r) ! p)"
    if "p < length (elems arr)" "\<forall>d\<in>set (distances fmt cat (elems arr ! p)). \<not> is_nan d" for p
    using that jnp_argmin_lowest_minimal [OF ne that(2)] by (simp add: fw)
  have b: "closest_first ys x (elems (forward ?r) ! p)"
    if p: "p < length (elems arr)" and v: "elems arr ! p = Finite x"
      and inv: "inverse_permittivities fmt cat = map Finite ys"
      and ex: "\<forall>y\<in>set ys. float_sub fmt (Finite x) (Finite y) = Finite (x - y)" for p x ys
  proof -
    have d: "distances fmt cat (elems arr ! p) = map (\<lambda>y. Finite \<bar>x - y\<bar>) ys"
      using distances_exact [OF inv ex] v by simp
    then have "\<forall>d\<in>set (distances fmt cat (elems arr ! p)). \<not> is_nan d"
      by (auto simp: is_nan_def)
    from a [OF p this] d show ?thesis
      by (simp add: lowest_minimal_exact)
  qed
  have sh: "shape (forward ?r) = shape arr" "length (elems (forward ?r)) = length (elems arr)"
    by (simp_all add: fw)
  have A: "\<forall>p<length (elems arr).
              (\<forall>d\<in>set (distances fmt cat (elems arr ! p)). \<not> is_nan d) \<longrightarrow>
              lowest_minimal (distances fmt cat (elems arr ! p)) (elems (forward ?r) ! p)"
    using a by blast
  have B: "\<forall>p<length (elems arr). \<forall>x ys.
              elems arr ! p = Finite x \<and> inverse_permittivities fmt cat = map Finite ys \<and>
              (\<forall>y\<in>set ys. float_sub fmt (Finite x) (Finite y) = Finite (x - y)) \<longrightarrow>
              closest_first ys x (elems (forward ?r) ! p)"
    using b by blast
  from call sh A B show ?thesis by blast
qed

text \<open>The theorem at a two-material catalog in the format \<open>float32\<close>; the value 3/4 is equally
  far from 1 and 1/2, and all differences are exact.\<close>

theorem ClosestIndex_lowest_computed_distance_witness:
  "\<exists>r. ClosestIndex_call binary32 two_material_air_first
          (ParamArray \<lparr>shape = [3], elems = [Finite 1, Finite (3 / 4), Finite (1 / 4)]\<rparr>) = Inr r \<and>
       elems (forward r) = [0, 0, 1] \<and>
       lowest_minimal (distances binary32 two_material_air_first (Finite (3 / 4))) 0 \<and>
       closest_first [1, 1 / 2] (3 / 4) 0"
proof -
  let ?arr = "\<lparr>shape = [3], elems = [Finite 1, Finite (3 / 4), Finite (1 / 4)]\<rparr>"
  have ne: "allowed_permittivities two_material_air_first \<noteq> []"
    by (simp add: two_material_air_first_def)
  have s: "float_sub binary32 (Finite 1) (Finite 1) = Finite 0"
    "float_sub binary32 (Finite 1) (Finite (1 / 2)) = Finite (1 / 2)"
    "float_sub binary32 (Finite (1 / 4)) (Finite 1) = Finite (- (3 / 4))"
    "float_sub binary32 (Finite (1 / 4)) (Finite (1 / 2)) = Finite (- (1 / 4))"
  proof -
    show "float_sub binary32 (Finite 1) (Finite 1) = Finite 0"
      by (simp add: round_to_format_zero)
    show "float_sub binary32 (Finite 1) (Finite (1 / 2)) = Finite (1 / 2)"
      by (simp add: binary32_round_examples)
    have "round_to_format binary32 (- (3 / 4)) = Finite (- (3 / 4))"
      by (rule binary32_exact [where e = "- 1" and m = "- 12582912"]) (simp_all add: pow2_def)
    then show "float_sub binary32 (Finite (1 / 4)) (Finite 1) = Finite (- (3 / 4))"
      by simp
    have "round_to_format binary32 (- (1 / 4)) = Finite (- (1 / 4))"
      by (rule binary32_exact [where e = "- 2" and m = "- 8388608"]) (simp_all add: pow2_def)
    then show "float_sub binary32 (Finite (1 / 4)) (Finite (1 / 2)) = Finite (- (1 / 4))"
      by simp
  qed
  have e1: "float_sub binary32 (Finite (3 / 4)) (Finite 1) = Finite (3 / 4 - 1)"
    by (simp only: float_sub.simps)
      (rule binary32_exact [where e = "- 2" and m = "- 8388608"], simp_all add: pow2_def)
  have e2: "float_sub binary32 (Finite (3 / 4)) (Finite (1 / 2)) = Finite (3 / 4 - 1 / 2)"
    by (simp only: float_sub.simps)
      (rule binary32_exact [where e = "- 2" and m = 8388608], simp_all add: pow2_def)
  note inv = inverse_permittivities_examples(1)
  have d: "distances binary32 two_material_air_first (Finite 1) = [Finite 0, Finite (1 / 2)]"
    "distances binary32 two_material_air_first (Finite (3 / 4)) = [Finite (1 / 4), Finite (1 / 4)]"
    "distances binary32 two_material_air_first (Finite (1 / 4)) = [Finite (3 / 4), Finite (1 / 4)]"
    by (simp_all add: distances_def inv s e1 e2 del: float_sub.simps)
  from ClosestIndex_lowest_computed_distance [OF ne, of binary32 ?arr]
  obtain r where r: "ClosestIndex_call binary32 two_material_air_first (ParamArray ?arr) = Inr r"
    and lm: "\<forall>p<length (elems ?arr).
              (\<forall>d\<in>set (distances binary32 two_material_air_first (elems ?arr ! p)). \<not> is_nan d) \<longrightarrow>
              lowest_minimal (distances binary32 two_material_air_first (elems ?arr ! p)) (elems (forward r) ! p)"
    and cf: "\<forall>p<length (elems ?arr). \<forall>x ys.
              elems ?arr ! p = Finite x \<and> inverse_permittivities binary32 two_material_air_first = map Finite ys \<and>
              (\<forall>y\<in>set ys. float_sub binary32 (Finite x) (Finite y) = Finite (x - y)) \<longrightarrow>
              closest_first ys x (elems (forward r) ! p)"
    by blast
  from r have e: "elems (forward r) = [0, 0, 1]"
    by (auto simp: ClosestIndex_call_array [OF ne] straight_through_estimator_def d is_nan_def)
  from lm [rule_format, of 1] d e
  have l: "lowest_minimal (distances binary32 two_material_air_first (Finite (3 / 4))) 0"
    by (simp add: is_nan_def)
  from cf [rule_format, of 1 "3 / 4" "[1, 1 / 2]"] inv e1 e2 e
  have c: "closest_first [1, 1 / 2] (3 / 4) 0"
    by simp
  from r e l c show ?thesis by blast
qed

text \<open>
  Claim C6 as stated fails: in \<open>float32\<close> the differences of the input value \<open>10\<^sup>8\<close> to the
  allowed values 1/2 and 1 both round to \<open>10\<^sup>8\<close>, the two computed distances are equal and
  index 0 is returned, although the allowed value at index 1 is strictly closer.
\<close>

theorem rounded_distances_tie_counterexample:
  "inverse_permittivities binary32 two_material_air_last = [Finite (1 / 2), Finite 1] \<and>
   distances binary32 two_material_air_last (Finite 100000000) = [Finite 100000000, Finite 100000000] \<and>
   forward_result (ClosestIndex_call binary32 two_material_air_last
                     (ParamArray \<lparr>shape = [1], elems = [Finite 100000000]\<rparr>))
     = Inr \<lparr>shape = [1], elems = [0]\<rparr> \<and>
   \<bar>100000000 - 1\<bar> < \<bar>100000000 - 1 / 2 :: real\<bar> \<and>
   \<not> closest_first [1 / 2, 1] 100000000 0"
proof -
  have ne: "allowed_permittivities two_material_air_last \<noteq> []"
    by (simp add: two_material_air_last_def)
  note inv = inverse_permittivities_examples(2)
  have s: "float_sub binary32 (Finite 100000000) (Finite (1 / 2)) = Finite 100000000"
    "float_sub binary32 (Finite 100000000) (Finite 1) = Finite 100000000"
    by (simp_all only: float_sub.simps binary32_round_examples)
  have d: "distances binary32 two_material_air_last (Finite 100000000)
      = [Finite 100000000, Finite 100000000]"
    by (simp add: distances_def inv s del: float_sub.simps)
  have c: "forward_result (ClosestIndex_call binary32 two_material_air_last
                     (ParamArray \<lparr>shape = [1], elems = [Finite 100000000]\<rparr>))
     = Inr \<lparr>shape = [1], elems = [0]\<rparr>"
    by (simp add: ClosestIndex_call_array [OF ne] forward_result_def straight_through_estimator_def d is_nan_def)
  have n: "\<not> closest_first [1 / 2, 1] 100000000 0"
    by (simp add: closest_first_def) (rule exI [of _ 1], simp)
  from inv d c n show ?thesis by simp
qed

section \<open>Properties of \<open>BrushConstraint2D.__call__\<close>\<close>

lemma py_index_Some_1:
  assumes "length s = 3" "py_index s ax = Some (1 :: nat)"
  shows "normalize_axis 3 ax < 3 \<and> s ! normalize_axis 3 ax = 1"
  using assms by (auto simp: py_index_def normalize_axis_def Let_def split: if_splits)

lemma jnp_take0_size1:
  assumes "shape x ! a = 1"
  shows "elems (jnp_take0 x a) = elems x"
  using assms by (simp add: jnp_take0_def Let_def map_nth)

lemma expand_take_shape:
  assumes "length s = 3" "a < 3" "s ! a = (1 :: nat)"
  shows "take a (take a s @ drop (Suc a) s) @ [1] @ drop a (take a s @ drop (Suc a) s) = s"
proof -
  from assms(1) obtain s0 s1 s2 where s: "s = [s0, s1, s2]"
    by (cases s; cases "tl s"; cases "tl (tl s)") auto
  from assms(2) consider "a = 0" | "a = 1" | "a = 2" by linarith
  then show ?thesis using assms(3) s by cases auto
qed

lemma one_minus_mask_nth: "one_minus_mask m = map (mask_index 0) m"
  by (simp add: one_minus_mask_def mask_index_def)

lemma one_minus_one_minus_mask: "air_idx \<noteq> 0 \<Longrightarrow> one_minus (one_minus_mask m) = map (mask_index air_idx) m"
  by (simp add: one_minus_def one_minus_mask_def mask_index_def)

lemma BrushConstraint2D_call_returns:
  assumes rank: "length (shape x) = 3"
    and ax: "py_index (shape x) (axis self) = Some 1"
    and cat: "length (material_keys (material self)) \<le> 2"
    and air: "air_name (material self) = Some a" "list_index (ordered_names (material self)) a = Some air_idx"
    and gen: "slice_loop self x = Some (touch_v, touch_s)"
    and ne: "elems x \<noteq> []"
  shows "BrushConstraint2D_call self (ParamArray x) =
           Returns (straight_through_estimator x
             \<lparr>shape = shape x, elems = map (mask_index air_idx) (slice_dilate self x touch_s)\<rparr>)"
proof -
  let ?a = "normalize_axis 3 (axis self)"
  from py_index_Some_1 [OF rank ax] have a: "?a < 3" "shape x ! ?a = 1" by simp_all
  have sh: "shape (expand_dims \<lparr>shape = shape (jnp_take0 x ?a), elems = e\<rparr> ?a) = shape x" for e :: "int list"
    using expand_take_shape [OF rank a] by (simp add: expand_dims_def jnp_take0_def Let_def)
  have ex: "expand_dims \<lparr>shape = shape (jnp_take0 x ?a), elems = e\<rparr> ?a = \<lparr>shape = shape x, elems = e\<rparr>"
    for e :: "int list"
    using sh [of e] by (simp add: expand_dims_def)
  from gen have g: "brush_generator (brush self) (shape (jnp_take0 x ?a) ! 0, shape (jnp_take0 x ?a) ! 1)
      (elems (jnp_take0 x ?a)) = Some (slice_dilate self x touch_s)"
    by (simp add: slice_loop_def slice_dilate_def [abs_def] slice_2d_def brush_generator_def generator_def)
  from ne have tr: "trace_body_fn (elems (jnp_take0 x ?a)) = None"
    by (simp add: trace_body_fn_def jnp_take0_size1 [OF a(2)])
  show ?thesis
  proof (cases "air_idx = 0")
    case True
    with rank ax cat air g ex tr show ?thesis
      by (simp add: BrushConstraint2D_call_def Let_def one_minus_mask_nth)
  next
    case False
    with rank ax cat air g ex tr show ?thesis
      by (simp add: BrushConstraint2D_call_def Let_def one_minus_one_minus_mask)
  qed
qed

lemma BrushConstraint2D_call_diverges:
  assumes rank: "length (shape x) = 3"
    and ax: "py_index (shape x) (axis self) = Some 1"
    and cat: "length (material_keys (material self)) \<le> 2"
    and gen: "slice_loop self x = None"
    and ne: "elems x \<noteq> []"
  shows "BrushConstraint2D_call self (ParamArray x) = Diverges"
proof -
  let ?a = "normalize_axis 3 (axis self)"
  from py_index_Some_1 [OF rank ax] have a: "?a < 3" "shape x ! ?a = 1" by simp_all
  from gen have g: "brush_generator (brush self) (shape (jnp_take0 x ?a) ! 0, shape (jnp_take0 x ?a) ! 1)
      (elems (jnp_take0 x ?a)) = None"
    by (simp add: slice_loop_def slice_dilate_def [abs_def] slice_2d_def brush_generator_def generator_def)
  from ne have tr: "trace_body_fn (elems (jnp_take0 x ?a)) = None"
    by (simp add: trace_body_fn_def jnp_take0_size1 [OF a(2)])
  with g rank ax cat show ?thesis
    by (simp add: BrushConstraint2D_call_def Let_def)
qed

lemma BrushConstraint2D_call_empty:
  assumes rank: "length (shape x) = 3"
    and ax: "py_index (shape x) (axis self) = Some 1"
    and cat: "length (material_keys (material self)) \<le> 2"
    and em: "elems x = []"
  shows "BrushConstraint2D_call self (ParamArray x) = Raises ValueError"
proof -
  let ?a = "normalize_axis 3 (axis self)"
  from py_index_Some_1 [OF rank ax] have a: "?a < 3" "shape x ! ?a = 1" by simp_all
  from em have tr: "trace_body_fn (elems (jnp_take0 x ?a)) = Some ValueError"
    by (simp add: trace_body_fn_def jnp_take0_size1 [OF a(2)])
  with rank ax cat show ?thesis
    by (simp add: BrushConstraint2D_call_def Let_def)
qed

text \<open>
  Claim C2 (as amended).  For a rank-3 input of size 1 along the constraint axis and a
  two-material catalog, when the solver's loop ends the returned mask has the shape of the
  input and carries the air material's position in the ordering at exactly the positions
  covered by the dilated committed-solid field: with air at index 0 those positions carry 0
  and all others 1; with air not at index 0 the mask is inverted, they carry 1 and all
  others 0.  An input without elements has no mask: the call raises while the loop body is
  traced.
\<close>

theorem mask_carries_air_index:
  assumes rank: "length (shape x) = 3"
    and ax: "py_index (shape x) (axis self) = Some 1"
    and cat: "length (material_keys (material self)) = 2"
    and air: "air_name (material self) = Some a" "list_index (ordered_names (material self)) a = Some air_idx"
    and gen: "slice_loop self x = Some (touch_v, touch_s)"
  shows "(elems x \<noteq> [] \<longrightarrow>
            (\<exists>r. BrushConstraint2D_call self (ParamArray x) = Returns r \<and>
              shape (forward r) = shape x \<and>
              elems (forward r) =
                map (\<lambda>covered. if covered then (if air_idx = 0 then 0 else 1) else (if air_idx = 0 then 1 else 0))
                  (slice_dilate self x touch_s))) \<and>
         (elems x = [] \<longrightarrow> raises (BrushConstraint2D_call self (ParamArray x)))"
proof -
  from cat have c: "length (material_keys (material self)) \<le> 2" by simp
  from BrushConstraint2D_call_returns [OF rank ax c air gen] BrushConstraint2D_call_empty [OF rank ax c]
  show ?thesis by (simp add: straight_through_estimator_def mask_index_def [abs_def] raises_def)
qed

text \<open>
  Claim C7 (as amended).  \<open>BrushConstraint2D.__call__\<close> raises an error when it is given a
  dict of named tensors, when the catalog contains more than two materials, when the input
  is not rank 3, when the input's size along the constraint axis is not 1 (an axis out of
  range included), and when the input has no elements.  On a single rank-3 tensor with at
  least one element, axis size 1 and exactly two materials, the air material being found in
  the catalog, it raises no error.
\<close>

theorem BrushConstraint2D_raises_on_violation:
  "(case input of
      ParamDict d \<Rightarrow> raises (BrushConstraint2D_call self input)
    | ParamArray x \<Rightarrow>
        (length (material_keys (material self)) > 2 \<or> length (shape x) \<noteq> 3 \<or>
         py_index (shape x) (axis self) \<noteq> Some 1 \<or> elems x = []
           \<longrightarrow> raises (BrushConstraint2D_call self input)) \<and>
        (length (material_keys (material self)) = 2 \<and> length (shape x) = 3 \<and>
         py_index (shape x) (axis self) = Some 1 \<and> elems x \<noteq> [] \<and>
         (\<exists>a air_idx. air_name (material self) = Some a \<and>
                       list_index (ordered_names (material self)) a = Some air_idx)
           \<longrightarrow> \<not> raises (BrushConstraint2D_call self input)))"
proof (cases input)
  case (ParamDict d)
  then show ?thesis by (simp add: BrushConstraint2D_call_def raises_def)
next
  case (ParamArray x)
  have v: "raises (BrushConstraint2D_call self (ParamArray x))"
    if "length (material_keys (material self)) > 2 \<or> length (shape x) \<noteq> 3 \<or>
        py_index (shape x) (axis self) \<noteq> Some 1 \<or> elems x = []"
  proof (cases "length (material_keys (material self)) > 2 \<or> length (shape x) \<noteq> 3 \<or>
                py_index (shape x) (axis self) \<noteq> Some 1")
    case True
    then show ?thesis
      by (auto simp: BrushConstraint2D_call_def raises_def Let_def split: option.splits)
  next
    case False
    then have rank: "length (shape x) = 3" and ax: "py_index (shape x) (axis self) = Some 1"
      and cat: "length (material_keys (material self)) \<le> 2" by simp_all
    from False that have "elems x = []" by blast
    from BrushConstraint2D_call_empty [OF rank ax cat this] show ?thesis
      by (simp add: raises_def)
  qed
  have w: "\<not> raises (BrushConstraint2D_call self (ParamArray x))"
    if cat2: "length (material_keys (material self)) = 2" and rank: "length (shape x) = 3"
      and ax: "py_index (shape x) (axis self) = Some 1" and ne: "elems x \<noteq> []"
      and air: "air_name (material self) = Some a" "list_index (ordered_names (material self)) a = Some air_idx"
    for a air_idx
  proof -
    from cat2 have cat: "length (material_keys (material self)) \<le> 2" by simp
    show ?thesis
    proof (cases "slice_loop self x")
      case None
      from BrushConstraint2D_call_diverges [OF rank ax cat None ne] show ?thesis
        by (simp add: raises_def)
    next
      case (Some res)
      obtain tv ts where "res = (tv, ts)" by (cases res)
      with Some BrushConstraint2D_call_returns [OF rank ax cat air _ ne, of tv ts] show ?thesis
        by (simp add: raises_def)
    qed
  qed
  from v w ParamArray show ?thesis by auto
qed

text \<open>The theorem at a two-pixel slice with air at index 1.\<close>

theorem mask_carries_air_index_witness:
  "\<exists>r. BrushConstraint2D_call (example_brush_constraint two_material_air_last) (ParamArray example_slice) = Returns r \<and>
       shape (forward r) = [1, 1, 2] \<and> elems (forward r) = [1, 0]"
proof -
  let ?self = "example_brush_constraint two_material_air_last"
  have rank: "length (shape example_slice) = 3" by (simp add: example_slice_def)
  have ax: "py_index (shape example_slice) (axis ?self) = Some 1" by code_simp
  have cat: "length (material_keys (material ?self)) = 2" by code_simp
  have air: "air_name (material ?self) = Some ''air''"
    "list_index (ordered_names (material ?self)) ''air'' = Some 1" by code_simp+
  have gen: "slice_loop ?self example_slice = Some ([False, True], [True, False])" by code_simp
  have dil: "slice_dilate ?self example_slice [True, False] = [True, False]" by code_simp
  from mask_carries_air_index [OF rank ax cat air gen] dil
  show ?thesis by (simp add: example_slice_def)
qed

text \<open>
  Claim C2 as stated fails: with air at index 0, pixel 0 is covered by the dilated
  committed-solid field and carries 0 in the returned mask, pixel 1 is not covered and
  carries 1.
\<close>

theorem solid_pixels_carry_zero_counterexample:
  "list_index (ordered_names two_material_air_first) ''air'' = Some 0 \<and>
   slice_loop (example_brush_constraint two_material_air_first) example_slice = Some ([False, True], [True, False]) \<and>
   slice_dilate (example_brush_constraint two_material_air_first) example_slice [True, False] = [True, False] \<and>
   forward_of (BrushConstraint2D_call (example_brush_constraint two_material_air_first) (ParamArray example_slice))
     = Returns \<lparr>shape = [1, 1, 2], elems = [0, 1]\<rparr>"
  by code_simp

text \<open>The theorem at a well-formed input: no error.\<close>

theorem BrushConstraint2D_raises_on_violation_witness:
  "\<not> raises (BrushConstraint2D_call (example_brush_constraint two_material_air_first) (ParamArray example_slice))"
proof -
  let ?self = "example_brush_constraint two_material_air_first"
  have air: "air_name (material ?self) = Some ''air''"
    "list_index (ordered_names (material ?self)) ''air'' = Some 0" by code_simp+
  have cat: "length (material_keys (material ?self)) = 2" by code_simp
  have rank: "length (shape example_slice) = 3" by (simp add: example_slice_def)
  have ax: "py_index (shape example_slice) (axis ?self) = Some 1" by code_simp
  have ne: "elems example_slice \<noteq> []" by (simp add: example_slice_def)
  from BrushConstraint2D_raises_on_violation [where input = "ParamArray example_slice" and self = ?self]
    cat rank ax ne air
  show ?thesis by simp
qed

text \<open>
  Claim C7 as stated fails: the input of shape \<open>(1, 0, 5)\<close> is a single rank-3 tensor of size 1
  along the constraint axis, the catalog has exactly two materials, and the call raises.
\<close>

theorem empty_slice_raises_counterexample:
  "length (material_keys (material (example_brush_constraint two_material_air_first))) = 2 \<and>
   length (shape empty_slice) = 3 \<and>
   py_index (shape empty_slice) (axis (example_brush_constraint two_material_air_first)) = Some 1 \<and>
   raises (BrushConstraint2D_call (example_brush_constraint two_material_air_first) (ParamArray empty_slice))"
  by code_simp

text \<open>
  The material check lets a catalog through that has fewer than two materials, although its
  message reads \<open>only implemented for single material and air\<close>: with the single material air
  the call raises no error.
\<close>

lemma single_material_catalog_accepted:
  "length (material_keys only_air) = 1 \<and>
   \<not> raises (BrushConstraint2D_call (example_brush_constraint only_air) (ParamArray example_slice))"
proof -
  let ?self = "example_brush_constraint only_air"
  have rank: "length (shape example_slice) = 3" by (simp add: example_slice_def)
  have ax: "py_index (shape example_slice) (axis ?self) = Some 1" by code_simp
  have cat: "length (material_keys (material ?self)) \<le> 2" by code_simp
  have air: "air_name (material ?self) = Some ''air''"
    "list_index (ordered_names (material ?self)) ''air'' = Some 0" by code_simp+
  have ne: "elems example_slice \<noteq> []" by (simp add: example_slice_def)
  have "\<not> raises (BrushConstraint2D_call ?self (ParamArray example_slice))"
  proof (cases "slice_loop ?self example_slice")
    case None
    from BrushConstraint2D_call_diverges [OF rank ax cat None ne] show ?thesis
      by (simp add: raises_def)
  next
    case (Some res)
    obtain tv ts where "res = (tv, ts)" by (cases res)
    with Some BrushConstraint2D_call_returns [OF rank ax cat air _ ne, of tv ts] show ?thesis
      by (simp add: raises_def)
  qed
  moreover have "length (material_keys only_air) = 1" by (simp add: only_air_def)
  ultimately show ?thesis by simp
qed

section \<open>Properties of \<open>PillarDiscretization.__call__\<close>\<close>

lemma length_concat_upt:
  "(\<And>i. i < n \<Longrightarrow> length (f i) = m) \<Longrightarrow> length (concat (map f [0..<n])) = n * m"
  by (induction n) simp_all

lemma concat_upt_nth:
  "(\<And>i. i < n \<Longrightarrow> length (f i) = m) \<Longrightarrow> i < n \<Longrightarrow> j < m \<Longrightarrow>
     concat (map f [0..<n]) ! (i * m + j) = f i ! j"
proof (induction n)
  case 0
  then show ?case by simp
next
  case (Suc n)
  have len: "length (concat (map f [0..<n])) = n * m"
    using Suc.prems(1) by (simp add: length_concat_upt)
  show ?case
  proof (cases "i < n")
    case True
    then have "Suc i * m \<le> n * m" by (simp only: Suc_leI mult_le_mono1)
    with Suc.prems(3) have "i * m + j < n * m" by simp
    with Suc True len show ?thesis by (simp add: nth_append)
  next
    case False
    with Suc.prems have "i = n" by simp
    with Suc.prems len show ?thesis by (simp add: nth_append)
  qed
qed

lemma at3_build:
  assumes "i0 < d0" "i1 < d1" "i2 < d2"
  shows "at3 \<lparr>shape = [d0, d1, d2],
               elems = concat (map (\<lambda>i0. concat (map (\<lambda>i1. map (h i0 i1) [0..<d2]) [0..<d1])) [0..<d0])\<rparr>
           i0 i1 i2 = h i0 i1 i2"
proof -
  let ?g = "\<lambda>i0. concat (map (\<lambda>i1. map (h i0 i1) [0..<d2]) [0..<d1])"
  have lg: "length (?g a) = d1 * d2" for a
    by (rule length_concat_upt) simp
  have ig: "?g a ! (i1 * d2 + i2) = h a i1 i2" for a
    using concat_upt_nth [of d1 "\<lambda>i1. map (h a i1) [0..<d2]" d2 i1 i2] assms by simp
  have "i1 * d2 + i2 < d1 * d2"
  proof -
    from assms(2) have "Suc i1 * d2 \<le> d1 * d2" by (simp only: Suc_leI mult_le_mono1)
    with assms(3) show ?thesis by simp
  qed
  with concat_upt_nth [of d0 ?g "d1 * d2" i0 "i1 * d2 + i2"] lg assms(1)
  have "concat (map ?g [0..<d0]) ! (i0 * (d1 * d2) + (i1 * d2 + i2)) = ?g i0 ! (i1 * d2 + i2)"
    by blast
  then have c: "concat (map ?g [0..<d0]) ! (i0 * (d1 * d2) + (i1 * d2 + i2)) = h i0 i1 i2"
    by (simp only: ig)
  have e: "(i0 * d1 + i1) * d2 + i2 = i0 * (d1 * d2) + (i1 * d2 + i2)"
    by (simp add: algebra_simps)
  have "at3 \<lparr>shape = [d0, d1, d2], elems = concat (map ?g [0..<d0])\<rparr> i0 i1 i2
      = concat (map ?g [0..<d0]) ! ((i0 * d1 + i1) * d2 + i2)"
    by (simp add: at3_def)
  also have "\<dots> = h i0 i1 i2" by (simp only: e c)
  finally show ?thesis .
qed

lemma at3_transpose_021:
  assumes "shape x = [s0, s1, s2]" "i < s0" "l < s2" "j < s1"
  shows "shape (jnp_transpose x (0, 2, 1)) = [s0, s2, s1]"
    and "at3 (jnp_transpose x (0, 2, 1)) i l j = at3 x i j l"
  using assms at3_build [of i s0 l s2 j s1 "\<lambda>i0 i1 i2. at3 x i0 i2 i1"]
  by (simp_all add: jnp_transpose_def Let_def)

lemma at3_transpose_201:
  assumes "shape x = [s0, s1, s2]" "i < s0" "j < s1" "l < s2"
  shows "shape (jnp_transpose x (2, 0, 1)) = [s2, s0, s1]"
    and "at3 (jnp_transpose x (2, 0, 1)) l i j = at3 x i j l"
  using assms at3_build [of l s2 i s0 j s1 "\<lambda>i0 i1 i2. at3 x i1 i2 i0"]
  by (simp_all add: jnp_transpose_def Let_def)

lemma length_table_row:
  assumes "shape table = [N, L]" "length (elems table) = N * L" "k < N"
  shows "length (table_row table k) = L"
proof -
  from assms(3) have "Suc k * L \<le> N * L" by (simp only: Suc_leI mult_le_mono1)
  then have "L \<le> N * L - k * L" by simp
  with assms show ?thesis by (simp add: table_row_def)
qed

lemma table_row_in_rows:
  assumes "shape table = [N, L]" "k < N"
  shows "table_row table k \<in> set (table_rows table)"
  using assms by (simp add: table_rows_def)

lemma at3_gather:
  assumes t: "shape table = [N, L]" "length (elems table) = N * L"
    and n: "shape idx = [A, B]" "length (elems idx) = A * B" "\<forall>k\<in>set (elems idx). k < N"
    and i: "i < A" "j < B" "l < L"
  shows "shape (gather_rows table idx) = [A, B, L]"
    and "at3 (gather_rows table idx) i j l = table_row table (elems idx ! (i * B + j)) ! l"
proof -
  show "shape (gather_rows table idx) = [A, B, L]"
    using t n by (simp add: gather_rows_def)
  let ?f = "\<lambda>p. table_row table (min (elems idx ! p) (N - 1))"
  have p: "i * B + j < A * B"
  proof -
    from i(1) have "Suc i * B \<le> A * B" by (simp only: Suc_leI mult_le_mono1)
    with i(2) show ?thesis by simp
  qed
  have inr: "elems idx ! q < N" if "q < A * B" for q
  proof -
    from that n(2) have "elems idx ! q \<in> set (elems idx)" by simp
    with n(3) show ?thesis by blast
  qed
  have lf: "length (?f q) = L" if "q < A * B" for q
    using length_table_row [OF t, of "min (elems idx ! q) (N - 1)"] inr [OF that] by simp
  have m: "map (\<lambda>k. table_row table (min k (N - 1))) (elems idx) = map ?f [0..<A * B]"
    by (rule nth_equalityI) (simp_all add: n(2))
  have "concat (map ?f [0..<A * B]) ! ((i * B + j) * L + l) = ?f (i * B + j) ! l"
    using concat_upt_nth [of "A * B" ?f L "i * B + j" l] lf p i(3) by blast
  moreover have "min (elems idx ! (i * B + j)) (N - 1) = elems idx ! (i * B + j)"
    using inr [OF p] by simp
  ultimately show "at3 (gather_rows table idx) i j l = table_row table (elems idx ! (i * B + j)) ! l"
    using t n m by (simp add: gather_rows_def at3_def)
qed

lemma map_nth_upt: "length xs = n \<Longrightarrow> map (\<lambda>l. xs ! l) [0..<n] = xs"
  using map_nth [of xs] by simp

text \<open>
  Claim C8.  For a single-tensor input and every axis in \<open>{0, 1, 2}\<close>, every 1-D column of
  the output of \<open>PillarDiscretization.__call__\<close> taken along the constrained axis is the row
  of the allowed-index table that \<open>nearest_index\<close> selected for that column, hence one of
  the table's valid index sequences; and the final transposition (none for axis 2, swap of
  the last two axes for axis 1, rotation of all three axes for axis 0) puts the constrained
  axis back in its place, so that the output has the input's shape.  What is assumed of the
  two functions outside this excerpt: the table is an \<open>N\<close> by \<open>L\<close> array, and
  \<open>nearest_index\<close> returns row numbers below \<open>N\<close> in an array over the two other axes.
\<close>

theorem pillar_columns_valid_and_axes_restored:
  assumes ax: "pillar_axis self = 0 \<or> pillar_axis self = 1 \<or> pillar_axis self = 2"
    and t: "shape (allowed_indices self) = [N, L]" "length (elems (allowed_indices self)) = N * L"
    and n: "shape (nearest_allowed_index nearest_index self x) = [A, B]"
      "length (elems (nearest_allowed_index nearest_index self x)) = A * B"
      "\<forall>k\<in>set (elems (nearest_allowed_index nearest_index self x)). k < N"
    and sx: "shape x = (if pillar_axis self = 2 then [A, B, L] else if pillar_axis self = 1 then [A, L, B] else [L, A, B])"
  shows "\<exists>r. PillarDiscretization_call nearest_index self (ParamArray x) = Inr r \<and>
           shape (forward r) = shape x \<and>
           (\<forall>i<A. \<forall>j<B.
              column_along (forward r) (pillar_axis self) i j =
                table_row (allowed_indices self) (elems (nearest_allowed_index nearest_index self x) ! (i * B + j)) \<and>
              column_along (forward r) (pillar_axis self) i j \<in> set (table_rows (allowed_indices self)))"
proof -
  let ?idx = "nearest_allowed_index nearest_index self x"
  let ?T = "allowed_indices self"
  let ?g = "gather_rows ?T ?idx"
  have sg: "shape ?g = [A, B, L]"
    using t n by (simp add: gather_rows_def)
  have ag: "at3 ?g i j l = table_row ?T (elems ?idx ! (i * B + j)) ! l" if "i < A" "j < B" "l < L" for i j l
    using at3_gather(2) [OF t n that] .
  have row: "table_row ?T (elems ?idx ! (i * B + j)) \<in> set (table_rows ?T) \<and>
             length (table_row ?T (elems ?idx ! (i * B + j))) = L" if "i < A" "j < B" for i j
  proof -
    have "i * B + j < A * B"
    proof -
      from that(1) have "Suc i * B \<le> A * B" by (simp only: Suc_leI mult_le_mono1)
      with that(2) show ?thesis by simp
    qed
    with n(2) have "elems ?idx ! (i * B + j) \<in> set (elems ?idx)" by simp
    with n(3) have "elems ?idx ! (i * B + j) < N" by blast
    with table_row_in_rows [OF t(1)] length_table_row [OF t] show ?thesis by blast
  qed
  have call: "PillarDiscretization_call nearest_index self (ParamArray x) =
      Inr (straight_through_estimator x
            (if pillar_axis self = 2 then ?g
             else if pillar_axis self = 1 then jnp_transpose ?g (0, 2, 1)
             else jnp_transpose ?g (2, 0, 1)))"
    using ax by (auto simp: PillarDiscretization_call_def Let_def nearest_allowed_index_def)
  from ax consider (two) "pillar_axis self = 2" | (one) "pillar_axis self = 1" | (zero) "pillar_axis self = 0"
    by blast
  then show ?thesis
  proof cases
    case two
    have "column_along ?g 2 i j = table_row ?T (elems ?idx ! (i * B + j))" if "i < A" "j < B" for i j
    proof -
      have "map (\<lambda>l. at3 ?g i j l) [0..<L] = map (\<lambda>l. table_row ?T (elems ?idx ! (i * B + j)) ! l) [0..<L]"
        using ag [OF that] by simp
      also have "\<dots> = table_row ?T (elems ?idx ! (i * B + j))"
        using row [OF that] by (simp add: map_nth_upt)
      finally show ?thesis using sg by (simp add: column_along_def)
    qed
    with row two sx sg call show ?thesis
      by (simp add: straight_through_estimator_def)
  next
    case one
    let ?o = "jnp_transpose ?g (0, 2, 1)"
    have so: "shape ?o = [A, L, B]"
      using sg by (simp add: jnp_transpose_def Let_def)
    have "column_along ?o 1 i j = table_row ?T (elems ?idx ! (i * B + j))" if "i < A" "j < B" for i j
    proof -
      have "at3 ?o i l j = table_row ?T (elems ?idx ! (i * B + j)) ! l" if "l < L" for l
        using at3_transpose_021(2) [OF sg \<open>i < A\<close> that \<open>j < B\<close>] ag [OF \<open>i < A\<close> \<open>j < B\<close> that] by simp
      then have "map (\<lambda>l. at3 ?o i l j) [0..<L] = map (\<lambda>l. table_row ?T (elems ?idx ! (i * B + j)) ! l) [0..<L]"
        by simp
      also have "\<dots> = table_row ?T (elems ?idx ! (i * B + j))"
        using row [OF that] by (simp add: map_nth_upt)
      finally show ?thesis using so by (simp add: column_along_def)
    qed
    with row one sx so call show ?thesis
      by (simp add: straight_through_estimator_def)
  next
    case zero
    let ?o = "jnp_transpose ?g (2, 0, 1)"
    have so: "shape ?o = [L, A, B]"
      using sg by (simp add: jnp_transpose_def Let_def)
    have "column_along ?o 0 i j = table_row ?T (elems ?idx ! (i * B + j))" if "i < A" "j < B" for i j
    proof -
      have "at3 ?o l i j = table_row ?T (elems ?idx ! (i * B + j)) ! l" if "l < L" for l
        using at3_transpose_201(2) [OF sg \<open>i < A\<close> \<open>j < B\<close> that] ag [OF \<open>i < A\<close> \<open>j < B\<close> that] by simp
      then have "map (\<lambda>l. at3 ?o l i j) [0..<L] = map (\<lambda>l. table_row ?T (elems ?idx ! (i * B + j)) ! l) [0..<L]"
        by simp
      also have "\<dots> = table_row ?T (elems ?idx ! (i * B + j))"
        using row [OF that] by (simp add: map_nth_upt)
      finally show ?thesis using so by (simp add: column_along_def)
    qed
    with row zero sx so call show ?thesis
      by (simp add: straight_through_estimator_def)
  qed
qed

text \<open>The theorem at axis 0, where all three axes are rotated.\<close>

theorem pillar_columns_valid_and_axes_restored_witness:
  "\<exists>r. PillarDiscretization_call example_nearest_index example_pillar (ParamArray example_pillar_input) = Inr r \<and>
       shape (forward r) = [2, 1, 2] \<and>
       column_along (forward r) 0 0 0 = [0, 1] \<and> column_along (forward r) 0 0 1 = [1, 1]"
proof -
  have "\<exists>r. PillarDiscretization_call example_nearest_index example_pillar (ParamArray example_pillar_input) = Inr r \<and>
           shape (forward r) = shape example_pillar_input \<and>
           (\<forall>i<1. \<forall>j<2.
              column_along (forward r) (pillar_axis example_pillar) i j =
                table_row (allowed_indices example_pillar)
                  (elems (nearest_allowed_index example_nearest_index example_pillar example_pillar_input) ! (i * 2 + j)) \<and>
              column_along (forward r) (pillar_axis example_pillar) i j \<in> set (table_rows (allowed_indices example_pillar)))"
    by (rule pillar_columns_valid_and_axes_restored [where N = 3 and L = 2])
       (simp_all add: nearest_allowed_index_def example_nearest_index_def example_pillar_def
          example_pillar_input_def)
  then obtain r where r: "PillarDiscretization_call example_nearest_index example_pillar (ParamArray example_pillar_input) = Inr r"
    "shape (forward r) = shape example_pillar_input"
    and c: "\<And>i j. i < 1 \<Longrightarrow> j < 2 \<Longrightarrow> column_along (forward r) (pillar_axis example_pillar) i j =
                table_row (allowed_indices example_pillar)
                  (elems (nearest_allowed_index example_nearest_index example_pillar example_pillar_input) ! (i * 2 + j))"
    by blast
  from c [of 0 0] c [of 0 1] have "column_along (forward r) 0 0 0 = [0, 1]" "column_along (forward r) 0 0 1 = [1, 1]"
    by (simp_all add: nearest_allowed_index_def example_nearest_index_def example_pillar_def table_row_def)
  with r show ?thesis by (simp add: example_pillar_input_def)
qed

section \<open>The gradient bridge\<close>






end
